theory Spec2Isabelle
  imports Main "HOL-Library.Sublist" "HOL-Library.Word" "HOL-Library.Code_Target_Nat"
begin

text \<open>
  A model of the token-description pipeline of the dashboard: the class
  \<open>PumpFunScraper\<close> (the filter \<open>isValidDescription\<close> and \<open>isValidTextBlock\<close>,
  \<open>extractDescription\<close>, the cache, \<open>scrapeTokenDescription\<close>, \<open>processBatch\<close>,
  \<open>scrapeMultipleTokens\<close>) and the list service (\<open>getPumpList\<close>,
  \<open>enhanceTokensWithDescriptions\<close>). Exceptions are values, the state of the scraper is
  passed explicitly, and what the JavaScript runtime, \<open>cheerio\<close> and the network do is
  a parameter.
\<close>

section \<open>JavaScript strings\<close>

text \<open>
  A JavaScript string is a sequence of UTF-16 code units; \<open>text.length\<close> counts code
  units. A code unit is modelled as a natural number (below 65536 in every real string).
  \<open>js\<close> embeds an ASCII literal of the source.
\<close>

type_synonym js_string = "nat list"

definition js :: "string \<Rightarrow> js_string" where
  "js s = map of_char s"

text \<open>
  The code units that \<open>\s\<close> matches and that \<open>String.prototype.trim\<close> strips
  (ECMAScript WhiteSpace and LineTerminator): TAB, LF, VT, FF, CR, SPACE, NBSP, U+1680,
  U+2000..U+200A, U+2028, U+2029, U+202F, U+205F, U+3000, U+FEFF.
\<close>

definition isWhiteSpace :: "nat \<Rightarrow> bool" where
  "isWhiteSpace c =
     (c \<in> set [9, 10, 11, 12, 13, 32, 160, 5760, 8232, 8233, 8239, 8287, 12288, 65279]
      \<or> (8192 \<le> c \<and> c \<le> 8202))"

definition isDigit :: "nat \<Rightarrow> bool" where
  "isDigit c = (48 \<le> c \<and> c \<le> 57)"

text \<open>\<open>\w\<close>: \<open>[A-Za-z0-9_]\<close>.\<close>

definition isWordChar :: "nat \<Rightarrow> bool" where
  "isWordChar c = ((65 \<le> c \<and> c \<le> 90) \<or> (97 \<le> c \<and> c \<le> 122) \<or> isDigit c \<or> c = 95)"

text \<open>\<open>String.prototype.trim\<close>.\<close>

definition trim :: "js_string \<Rightarrow> js_string" where
  "trim s = rev (dropWhile isWhiteSpace (rev (dropWhile isWhiteSpace s)))"

text \<open>\<open>s.replace(/\s+/g, ' ')\<close>: every maximal run of white space becomes one SPACE;
  \<open>inRun\<close> says that the code unit before was white space.\<close>

fun collapseFrom :: "bool \<Rightarrow> js_string \<Rightarrow> js_string" where
  "collapseFrom inRun [] = []"
| "collapseFrom inRun (c # cs) =
     (if isWhiteSpace c then (if inRun then collapseFrom True cs else 32 # collapseFrom True cs)
      else c # collapseFrom False cs)"

definition collapseWhiteSpace :: "js_string \<Rightarrow> js_string" where
  "collapseWhiteSpace s = collapseFrom False s"

text \<open>\<open>s.replace(/\s+/g, ' ').trim()\<close>, the normalisation applied to every returned text.\<close>

definition normalizeText :: "js_string \<Rightarrow> js_string" where
  "normalizeText s = trim (collapseWhiteSpace s)"

text \<open>\<open>s.includes(sub)\<close> is \<^const>\<open>sublist\<close> \<open>sub s\<close>.\<close>

definition strIncludes :: "js_string \<Rightarrow> js_string \<Rightarrow> bool" where
  "strIncludes s sub = sublist sub s"

text \<open>\<open>s.split(' ')\<close>: the pieces between the SPACE code units (at least one piece).\<close>

fun splitSpace :: "js_string \<Rightarrow> js_string list" where
  "splitSpace [] = [[]]"
| "splitSpace (c # cs) =
     (if c = 32 then [] # splitSpace cs
      else (case splitSpace cs of [] \<Rightarrow> [[c]] | w # ws \<Rightarrow> (c # w) # ws))"

section \<open>Regular expressions\<close>

text \<open>
  The regular-expression literals of the scraper use literals, the classes \<open>\d\<close>,
  \<open>\s\<close>, \<open>\w\<close> and bracket sets, sequence, alternation, \<open>*\<close>, \<open>+\<close>, \<open>?\<close> and the
  assertions \<open>^\<close>, \<open>$\<close>, \<open>\b\<close>. No literal uses the flags \<open>g\<close>, \<open>m\<close>, \<open>u\<close> or
  \<open>y\<close>, so \<open>^\<close> and \<open>$\<close> are the ends of the input and \<open>test\<close>/\<open>match\<close> ask
  whether some match exists.
\<close>

datatype regex =
    Eps
  | Lit js_string
  | Digit
  | Space
  | WordCh
  | OneOf js_string
  | Seq regex regex
  | Alt regex regex
  | Star regex
  | Plus regex
  | Opt regex
  | Bol
  | Eol
  | WordBoundary

fun seqs :: "regex list \<Rightarrow> regex" where
  "seqs [] = Eps"
| "seqs [r] = r"
| "seqs (r # rs) = Seq r (seqs rs)"

fun alts :: "regex list \<Rightarrow> regex" where
  "alts [] = Eps"
| "alts [r] = r"
| "alts (r # rs) = Alt r (alts rs)"

text \<open>
  Under the flag \<open>i\<close> (without \<open>u\<close>) two code units match when their canonical forms
  agree; a code unit of 128 or more never canonicalises to an ASCII one. All literals of
  the patterns are ASCII, so comparing upper-cased ASCII letters is exact.
\<close>

definition asciiUpper :: "nat \<Rightarrow> nat" where
  "asciiUpper c = (if 97 \<le> c \<and> c \<le> 122 then c - 32 else c)"

definition chrEq :: "bool \<Rightarrow> nat \<Rightarrow> nat \<Rightarrow> bool" where
  "chrEq ignoreCase p c = (if ignoreCase then asciiUpper p = asciiUpper c else p = c)"

text \<open>
  A position of the matcher: the code unit just before it (\<open>None\<close> at the start of the
  input) and the rest of the input.
\<close>

type_synonym pos = "nat option \<times> js_string"

fun stepChr :: "(nat \<Rightarrow> bool) \<Rightarrow> pos \<Rightarrow> pos list" where
  "stepChr P (_, []) = []"
| "stepChr P (_, c # cs) = (if P c then [(Some c, cs)] else [])"

fun stepLit :: "bool \<Rightarrow> js_string \<Rightarrow> pos \<Rightarrow> pos list" where
  "stepLit ic [] p = [p]"
| "stepLit ic (l # ls) (_, []) = []"
| "stepLit ic (l # ls) (_, c # cs) = (if chrEq ic l c then stepLit ic ls (Some c, cs) else [])"

text \<open>
  Zero or more iterations of a step; an iteration that consumes nothing is dropped (as
  the ECMAScript RepeatMatcher does), so the rest of the input bounds the depth.
\<close>

primrec iterate :: "(pos \<Rightarrow> pos list) \<Rightarrow> nat \<Rightarrow> pos \<Rightarrow> pos list" where
  "iterate f 0 p = [p]"
| "iterate f (Suc n) p =
     p # concat (map (iterate f n) (filter (\<lambda>q. length (snd q) < length (snd p)) (f p)))"

definition wordBefore :: "pos \<Rightarrow> bool" where
  "wordBefore p = (case fst p of None \<Rightarrow> False | Some c \<Rightarrow> isWordChar c)"

definition wordAfter :: "pos \<Rightarrow> bool" where
  "wordAfter p = (case snd p of [] \<Rightarrow> False | c # _ \<Rightarrow> isWordChar c)"

text \<open>The positions at which a match of the expression that starts at \<open>p\<close> can end.\<close>

primrec ends :: "regex \<Rightarrow> bool \<Rightarrow> pos \<Rightarrow> pos list" where
  "ends Eps ic p = [p]"
| "ends (Lit s) ic p = stepLit ic s p"
| "ends Digit ic p = stepChr isDigit p"
| "ends Space ic p = stepChr isWhiteSpace p"
| "ends WordCh ic p = stepChr isWordChar p"
| "ends (OneOf s) ic p = stepChr (\<lambda>c. list_ex (\<lambda>l. chrEq ic l c) s) p"
| "ends (Seq a b) ic p = concat (map (ends b ic) (ends a ic p))"
| "ends (Alt a b) ic p = ends a ic p @ ends b ic p"
| "ends (Star a) ic p = iterate (ends a ic) (length (snd p)) p"
| "ends (Plus a) ic p =
     concat (map (\<lambda>q. iterate (ends a ic) (length (snd q)) q) (ends a ic p))"
| "ends (Opt a) ic p = ends a ic p @ [p]"
| "ends Bol ic p = (if fst p = None then [p] else [])"
| "ends Eol ic p = (if snd p = [] then [p] else [])"
| "ends WordBoundary ic p = (if wordBefore p \<noteq> wordAfter p then [p] else [])"

fun positions :: "nat option \<Rightarrow> js_string \<Rightarrow> pos list" where
  "positions prev [] = [(prev, [])]"
| "positions prev (c # cs) = (prev, c # cs) # positions (Some c) cs"

text \<open>\<open>pattern.test(text)\<close>, and \<open>text.match(pattern) !== null\<close>.\<close>

definition regexTest :: "regex \<Rightarrow> bool \<Rightarrow> js_string \<Rightarrow> bool" where
  "regexTest r ignoreCase s = list_ex (\<lambda>p. ends r ignoreCase p \<noteq> []) (positions None s)"

section \<open>The description filter of the scraper\<close>

record ScraperConfig =
  rateLimitDelay :: nat
  batchSize :: nat
  batchDelay :: nat
  maxDescriptionLength :: nat
  minDescriptionLength :: nat
  requestTimeout :: nat

definition config :: ScraperConfig where
  "config = \<lparr> rateLimitDelay = 75, batchSize = 50, batchDelay = 0,
              maxDescriptionLength = 2500, minDescriptionLength = 0,
              requestTimeout = 4000 \<rparr>"

text \<open>The group \<open>(second|minute|hour|day|week|month|year)\<close>.\<close>

definition timeUnits :: "js_string list" where
  "timeUnits = [js ''second'', js ''minute'', js ''hour'', js ''day'', js ''week'',
                js ''month'', js ''year'']"

definition timeUnit :: regex where
  "timeUnit = alts (map Lit timeUnits)"

text \<open>The six \<open>timePatterns\<close> of \<open>isValidDescription\<close>, all with the flag \<open>i\<close>.\<close>

definition timePatterns :: "regex list" where
  "timePatterns =
    [ seqs [WordBoundary, Plus Digit, Plus Space, timeUnit, Opt (Lit (js ''s'')),
            Plus Space, Lit (js ''ago''), WordBoundary],
      seqs [WordBoundary, Lit (js ''about''), Plus Space, Plus Digit, Plus Space, timeUnit,
            Opt (Lit (js ''s'')), Plus Space, Lit (js ''ago''), WordBoundary],
      seqs [WordBoundary, Plus Digit, OneOf (js ''mhd''), Plus Space, Lit (js ''ago''),
            WordBoundary],
      seqs [Bol, Star Space, Plus Digit, Plus Space, timeUnit, Opt (Lit (js ''s'')),
            Plus Space, Lit (js ''ago''), Star Space, Eol],
      seqs [Bol,
            alts [Lit (js ''just now''),
                  seqs [Lit (js ''moment''), Opt (Lit (js ''s'')), Lit (js '' ago'')],
                  seqs [Lit (js ''recently create''), Opt (Lit (js ''d''))]],
            Eol],
      seqs [Bol, alts [Lit (js ''yesterday''), Lit (js ''today''), Lit (js ''tomorrow'')],
            Eol] ]"

definition matchesTimePattern :: "js_string \<Rightarrow> bool" where
  "matchesTimePattern text = list_ex (\<lambda>pattern. regexTest pattern True text) timePatterns"

definition commonExclusions :: "js_string list" where
  "commonExclusions = [js ''default description'', js ''time since creation'',
                       js ''creation time'']"

definition uiExclusions :: "js_string list" where
  "uiExclusions =
    [js ''connect wallet'', js ''copy address'', js ''click here'', js ''sign in'',
     js ''log in'', js ''loading'', js ''view more'', js ''show more'', js ''read more'',
     js ''taking too long to load'', js ''try refresh'', js ''refresh the page'',
     js ''page not found'', js ''error loading'', js ''failed to load'', js ''try again'']"

text \<open>
  \<open>String.prototype.toLowerCase\<close> belongs to the JavaScript runtime, not to the
  repository; the filter takes it as the parameter \<open>lc\<close>.
\<close>

definition isValidDescription ::
    "(js_string \<Rightarrow> js_string) \<Rightarrow> js_string \<Rightarrow> bool \<Rightarrow> bool" where
  "isValidDescription lc text isMetaTag =
     (if text = [] \<or> length text < minDescriptionLength config
         \<or> length text > maxDescriptionLength config then False
      else let lowerText = lc text in
        if matchesTimePattern text then False
        else if list_ex (\<lambda>exclusion. lowerText = exclusion) commonExclusions then False
        else if \<not> isMetaTag \<and> list_ex (\<lambda>exclusion. strIncludes lowerText exclusion) uiExclusions
          then False
        else True)"

text \<open>\<open>/^\d+[.,]\d+/\<close> and \<open>/^\w+\s*$/\<close> of \<open>isValidTextBlock\<close> (no flags).\<close>

definition pureNumberPattern :: regex where
  "pureNumberPattern = seqs [Bol, Plus Digit, OneOf (js ''.,''), Plus Digit]"

definition singleWordPattern :: regex where
  "singleWordPattern = seqs [Bol, Plus WordCh, Star Space, Eol]"

definition isValidTextBlock :: "(js_string \<Rightarrow> js_string) \<Rightarrow> js_string \<Rightarrow> bool" where
  "isValidTextBlock lc text =
     (if \<not> isValidDescription lc text False then False
      else let lowerText = lc text in
        \<not> regexTest pureNumberPattern False text
        \<and> \<not> regexTest singleWordPattern False text
        \<and> length (splitSpace text) > 2
        \<and> \<not> strIncludes lowerText (js ''market cap'')
        \<and> \<not> strIncludes lowerText (js ''loading'')
        \<and> \<not> strIncludes lowerText (js ''refresh'')
        \<and> \<not> strIncludes lowerText (js ''try again''))"

text \<open>
  The lower-casing of ASCII letters: what \<open>toLowerCase\<close> does on a string whose code
  units are all below 128. It instantiates \<open>lc\<close> in the examples.
\<close>

definition asciiLower :: "js_string \<Rightarrow> js_string" where
  "asciiLower s = map (\<lambda>c. if 65 \<le> c \<and> c \<le> 90 then c + 32 else c) s"

section \<open>The description extractor\<close>

text \<open>
  \<open>cheerio\<close> is a library outside the repository. A loaded document is modelled by
  what the extractor asks of it: \<open>$(selector)\<close> gives the matched elements in
  document order, and of an element the code reads \<open>.text()\<close>,
  \<open>.children().length\<close> and \<open>.attr('content')\<close>.
\<close>

record element =
  textOf :: js_string
  childrenCount :: nat
  contentAttr :: "js_string option"

type_synonym cheerio_doc = "string \<Rightarrow> element list"

text \<open>\<open>$(selector).attr('content')\<close>: the attribute of the first matched element.\<close>

definition attrContent :: "element list \<Rightarrow> js_string option" where
  "attrContent es = (case es of [] \<Rightarrow> None | e # _ \<Rightarrow> contentAttr e)"

definition metaSelectors :: "string list" where
  \<open>metaSelectors = [''meta[name="description"]'', ''meta[property="og:description"]'',
                    ''meta[name="twitter:description"]'']\<close>

definition structuralSelectors :: "string list" where
  \<open>structuralSelectors = [''[class*="description"]'', ''[data-testid*="description"]'',
                          ''main p'', ''[class*="about"]'']\<close>

text \<open>The loop over \<open>metaSelectors\<close>.\<close>

fun metaLoop :: "(js_string \<Rightarrow> js_string) \<Rightarrow> cheerio_doc \<Rightarrow> string list \<Rightarrow> js_string option" where
  "metaLoop lc doc [] = None"
| "metaLoop lc doc (selector # rest) =
     (case attrContent (doc selector) of
        None \<Rightarrow> metaLoop lc doc rest
      | Some content \<Rightarrow>
          if content \<noteq> [] \<and> isValidDescription lc content True
          then Some (normalizeText content)
          else metaLoop lc doc rest)"

text \<open>The inner loop over the elements of one structural selector.\<close>

fun elementLoop :: "(js_string \<Rightarrow> js_string) \<Rightarrow> element list \<Rightarrow> js_string option" where
  "elementLoop lc [] = None"
| "elementLoop lc (e # es) =
     (let text = trim (textOf e) in
      if isValidDescription lc text False then Some (normalizeText text)
      else elementLoop lc es)"

fun structuralLoop ::
    "(js_string \<Rightarrow> js_string) \<Rightarrow> cheerio_doc \<Rightarrow> string list \<Rightarrow> js_string option" where
  "structuralLoop lc doc [] = None"
| "structuralLoop lc doc (selector # rest) =
     (case elementLoop lc (doc selector) of
        Some found \<Rightarrow> Some found
      | None \<Rightarrow> structuralLoop lc doc rest)"

fun textBlockLoop :: "(js_string \<Rightarrow> js_string) \<Rightarrow> element list \<Rightarrow> js_string option" where
  "textBlockLoop lc [] = None"
| "textBlockLoop lc (e # es) =
     (let text = trim (textOf e);
          hasOnlyTextChildren = (childrenCount e = 0) in
      if hasOnlyTextChildren \<and> isValidTextBlock lc text then Some (normalizeText text)
      else textBlockLoop lc es)"

definition findTextBlocks :: "(js_string \<Rightarrow> js_string) \<Rightarrow> cheerio_doc \<Rightarrow> js_string option" where
  "findTextBlocks lc doc = textBlockLoop lc (doc ''p, div, span'')"

text \<open>
  \<open>extractDescription\<close>; \<open>load\<close> is \<open>cheerio.load\<close>, with \<open>None\<close> when it
  throws (the \<open>catch\<close> then returns \<open>null\<close>).
\<close>

definition extractDescription ::
    "(js_string \<Rightarrow> js_string) \<Rightarrow> (js_string \<Rightarrow> cheerio_doc option) \<Rightarrow> js_string
      \<Rightarrow> js_string option" where
  "extractDescription lc load html =
     (case load html of
        None \<Rightarrow> None
      | Some doc \<Rightarrow>
          (case metaLoop lc doc metaSelectors of
             Some found \<Rightarrow> Some found
           | None \<Rightarrow>
               (case structuralLoop lc doc structuralSelectors of
                  Some found \<Rightarrow> Some found
                | None \<Rightarrow> findTextBlocks lc doc)))"

text \<open>
  The extractor as the specification words it: three lists of candidates, in priority
  order, each with its filter; the first candidate that passes is returned, normalised.
\<close>

definition metaCandidates :: "cheerio_doc \<Rightarrow> js_string list" where
  "metaCandidates doc = List.map_filter (\<lambda>selector. attrContent (doc selector)) metaSelectors"

definition structuralCandidates :: "cheerio_doc \<Rightarrow> js_string list" where
  "structuralCandidates doc =
     concat (map (\<lambda>selector. map (\<lambda>e. trim (textOf e)) (doc selector)) structuralSelectors)"

definition leafCandidates :: "cheerio_doc \<Rightarrow> js_string list" where
  "leafCandidates doc =
     map (\<lambda>e. trim (textOf e)) (filter (\<lambda>e. childrenCount e = 0) (doc ''p, div, span''))"

definition extractSpec ::
    "(js_string \<Rightarrow> js_string) \<Rightarrow> (js_string \<Rightarrow> cheerio_doc option) \<Rightarrow> js_string
      \<Rightarrow> js_string option" where
  "extractSpec lc load html =
     (case load html of
        None \<Rightarrow> None
      | Some doc \<Rightarrow>
          (case find (\<lambda>c. isValidDescription lc c True) (metaCandidates doc) of
             Some c \<Rightarrow> Some (normalizeText c)
           | None \<Rightarrow>
               (case find (\<lambda>c. isValidDescription lc c False) (structuralCandidates doc) of
                  Some c \<Rightarrow> Some (normalizeText c)
                | None \<Rightarrow>
                    (case find (isValidTextBlock lc) (leafCandidates doc) of
                       Some c \<Rightarrow> Some (normalizeText c)
                     | None \<Rightarrow> None))))"

section \<open>The scraper: cache, single scrape, batches\<close>

definition noDescription :: js_string where
  "noDescription = js ''No description available''"

definition baseUrl :: js_string where
  "baseUrl = js ''https://pump.fun''"

definition tokenUrl :: "js_string \<Rightarrow> js_string" where
  "tokenUrl tokenAddress = baseUrl @ js ''/'' @ tokenAddress"

record ScrapedTokenData =
  description :: "js_string option"
  error :: "js_string option"

text \<open>A thrown value: an \<open>Error\<close> instance with its message, or anything else.\<close>

datatype thrown = ErrorObject js_string | OtherValue

text \<open>
  What the global \<open>fetch\<close> does for a URL: it rejects (network failure, or the abort
  that the request timer triggers), or it answers with \<open>ok\<close>, the texts of \<open>status\<close>
  and \<open>statusText\<close>, and the outcome of reading the body with \<open>response.text()\<close>.
\<close>

datatype fetch_result =
    FetchRejected thrown
  | FetchResponse bool js_string js_string "thrown + js_string"

text \<open>
  What lies outside the repository: \<open>String.prototype.toLowerCase\<close>, \<open>cheerio.load\<close>
  and the network. The network answers a URL the same way each time it is asked.
\<close>

record runtime =
  toLowerCase :: "js_string \<Rightarrow> js_string"
  cheerioLoad :: "js_string \<Rightarrow> cheerio_doc option"
  fetch :: "js_string \<Rightarrow> fetch_result"

text \<open>\<open>fetchTokenPage\<close>: the page text, or the value thrown.\<close>

definition fetchTokenPage :: "runtime \<Rightarrow> js_string \<Rightarrow> thrown + js_string" where
  "fetchTokenPage rt url =
     (case fetch rt url of
        FetchRejected e \<Rightarrow> Inl e
      | FetchResponse ok status statusText body \<Rightarrow>
          if \<not> ok then Inl (ErrorObject (js ''HTTP '' @ status @ js '': '' @ statusText))
          else body)"

text \<open>
  The state of a \<open>PumpFunScraper\<close>: its cache, and the URLs handed to \<open>fetch\<close> so far
  (oldest first).
\<close>

record scraper =
  cache :: "js_string \<rightharpoonup> ScrapedTokenData"
  fetched :: "js_string list"

definition newScraper :: scraper where
  "newScraper = \<lparr> cache = Map.empty, fetched = [] \<rparr>"

text \<open>\<open>x || 'No description available'\<close> for an optional string \<open>x\<close>.\<close>

definition orNoDescription :: "js_string option \<Rightarrow> js_string" where
  "orNoDescription d = (case d of None \<Rightarrow> noDescription
                        | Some t \<Rightarrow> if t = [] then noDescription else t)"

text \<open>\<open>description || undefined\<close>.\<close>

definition orUndefined :: "js_string option \<Rightarrow> js_string option" where
  "orUndefined d = (case d of None \<Rightarrow> None | Some t \<Rightarrow> if t = [] then None else Some t)"

text \<open>
  The part of \<open>scrapeTokenDescription\<close> after the cache miss: the fetch, then either the
  extraction or the \<open>catch\<close>. It yields the cache entry to store and the text to return.
\<close>

definition scrapeUncached :: "runtime \<Rightarrow> js_string \<Rightarrow> ScrapedTokenData \<times> js_string" where
  "scrapeUncached rt tokenAddress =
     (case fetchTokenPage rt (tokenUrl tokenAddress) of
        Inr html \<Rightarrow>
          (let description = extractDescription (toLowerCase rt) (cheerioLoad rt) html in
           (\<lparr> description = orUndefined description, error = None \<rparr>,
            orNoDescription description))
      | Inl e \<Rightarrow>
          (\<lparr> description = None,
             error = Some (case e of ErrorObject message \<Rightarrow> message
                                   | OtherValue \<Rightarrow> js ''Unknown error'') \<rparr>,
           noDescription))"

text \<open>
  \<open>scrapeTokenDescription\<close>, run to completion before anything else happens. The delay
  of \<open>rateLimitDelay\<close> ms when \<open>skipDelay\<close> is false has no effect on the state.
\<close>

definition scrapeTokenDescription ::
    "runtime \<Rightarrow> scraper \<Rightarrow> js_string \<Rightarrow> bool \<Rightarrow> js_string \<times> scraper" where
  "scrapeTokenDescription rt s tokenAddress skipDelay =
     (case cache s tokenAddress of
        Some cached \<Rightarrow> (orNoDescription (description cached), s)
      | None \<Rightarrow>
          (let (entry, result) = scrapeUncached rt tokenAddress in
           (result, s\<lparr> cache := (cache s)(tokenAddress \<mapsto> entry),
                       fetched := fetched s @ [tokenUrl tokenAddress] \<rparr>)))"

text \<open>
  The \<open>Record<string, string>\<close> of results is a plain object, \<open>{}\<close>; the model has
  its own properties as a finite map. \<open>results[key] = desc\<close> stores \<open>desc\<close> under
  every key but \<open>__proto__\<close>: that assignment calls the setter which the object inherits
  from \<open>Object.prototype\<close>, and the setter ignores a string. \<open>Object.assign\<close> assigns
  the own properties of its source to the target in the same way.
\<close>

definition recordSet ::
    "(js_string \<rightharpoonup> js_string) \<Rightarrow> js_string \<Rightarrow> js_string \<Rightarrow> (js_string \<rightharpoonup> js_string)" where
  "recordSet r key desc = (if key = js ''__proto__'' then r else r(key \<mapsto> desc))"

definition objectAssign ::
    "(js_string \<rightharpoonup> js_string) \<Rightarrow> (js_string \<rightharpoonup> js_string) \<Rightarrow> (js_string \<rightharpoonup> js_string)" where
  "objectAssign target source =
     (\<lambda>key. if key = js ''__proto__'' then target key else (target ++ source) key)"

text \<open>
  \<open>processBatch\<close> starts every call of the batch before any of them continues: a call
  runs synchronously up to its first \<open>await\<close>, which with \<open>skipDelay = true\<close> is the
  one on \<open>fetch\<close>. So every call of the batch looks up the cache as it was when the batch
  started, and every call that misses issues its own fetch. When the fetches settle the
  continuations store their entries, and \<open>Promise.allSettled\<close> hands the results over
  in the order of the input, where \<open>results[address] = desc\<close> lets a later duplicate
  overwrite an earlier one.
\<close>

definition processBatch ::
    "runtime \<Rightarrow> scraper \<Rightarrow> js_string list \<Rightarrow> (js_string \<rightharpoonup> js_string) \<times> scraper" where
  "processBatch rt s tokenAddresses =
     (let missed = filter (\<lambda>address. cache s address = None) tokenAddresses;
          settled = map (\<lambda>address.
                      (address,
                       case cache s address of
                         Some cached \<Rightarrow> orNoDescription (description cached)
                       | None \<Rightarrow> snd (scrapeUncached rt address))) tokenAddresses;
          results = fold (\<lambda>(address, desc) r. recordSet r address desc) settled Map.empty
      in (results,
          s\<lparr> cache := fold (\<lambda>address c. c(address \<mapsto> fst (scrapeUncached rt address)))
                         missed (cache s),
             fetched := fetched s @ map tokenUrl missed \<rparr>))"

text \<open>
  The loop of \<open>scrapeMultipleTokens\<close>: \<open>rest\<close> is \<open>tokenAddresses.slice(i)\<close>, a batch
  is its first \<open>batchSize\<close> elements, \<open>Object.assign\<close> adds the batch's results.
\<close>

function batchLoop ::
    "runtime \<Rightarrow> scraper \<Rightarrow> (js_string \<rightharpoonup> js_string) \<Rightarrow> js_string list
      \<Rightarrow> (js_string \<rightharpoonup> js_string) \<times> scraper" where
  "batchLoop rt s results rest =
     (if rest = [] then (results, s)
      else let batch = take (batchSize config) rest;
               (batchResults, s') = processBatch rt s batch
           in batchLoop rt s' (objectAssign results batchResults)
                (drop (batchSize config) rest))"
  by pat_completeness auto
termination
  by (relation "measure (\<lambda>(rt, s, results, rest). length rest)") (auto simp: config_def)

declare batchLoop.simps [simp del]

definition scrapeMultipleTokens ::
    "runtime \<Rightarrow> scraper \<Rightarrow> js_string list \<Rightarrow> (js_string \<rightharpoonup> js_string) \<times> scraper" where
  "scrapeMultipleTokens rt s tokenAddresses = batchLoop rt s Map.empty tokenAddresses"







section \<open>The list service\<close>

text \<open>
  The token list is \<open>any[]\<close> in the source: a value that \<open>JSON.parse\<close> produced, or
  \<open>undefined\<close> where a property is missing. A number is kept as the 64 bits of its
  IEEE-754 double, of which the code only asks whether it is truthy. \<open>JNative n\<close> is no
  JSON value: it is the member \<open>n\<close> of \<open>Object.prototype\<close>, a function, or under
  \<open>__proto__\<close> the prototype object itself, which a look-up in a plain object finds
  when the object has no property of that name of its own.
\<close>

datatype jsval =
    JUndefined
  | JNull
  | JBool bool
  | JNum "64 word"
  | JStr js_string
  | JArr "jsval list"
  | JObj "(js_string \<times> jsval) list"
  | JNative js_string

text \<open>A number is falsy when it is \<open>+0\<close>, \<open>-0\<close> or \<open>NaN\<close>.\<close>

definition numberTruthy :: "64 word \<Rightarrow> bool" where
  "numberTruthy w =
     (let magnitude = and w 0x7FFFFFFFFFFFFFFF
      in magnitude \<noteq> 0 \<and> magnitude \<le> 0x7FF0000000000000)"

fun truthy :: "jsval \<Rightarrow> bool" where
  "truthy JUndefined = False"
| "truthy JNull = False"
| "truthy (JBool b) = b"
| "truthy (JNum w) = numberTruthy w"
| "truthy (JStr t) = (t \<noteq> [])"
| "truthy (JArr _) = True"
| "truthy (JObj _) = True"
| "truthy (JNative _) = True"

datatype exn =
    TypeError
  | SyntaxError
  | FetchFailure
  | BodyFailure
  | ApiError nat

text \<open>
  \<open>v.k\<close> for the property names the service reads (\<open>rank\<close>, \<open>name\<close>, \<open>symbol\<close>,
  \<open>address\<close>, \<open>description\<close>): a TypeError on \<open>null\<close> and \<open>undefined\<close>, the own
  property of an object (\<open>Object.prototype\<close> has no member of one of these names),
  the \<open>name\<close> of a function, \<open>undefined\<close> on everything else (no array, string,
  number or boolean has a property of one of these names).
\<close>

definition getProp :: "jsval \<Rightarrow> js_string \<Rightarrow> exn + jsval" where
  "getProp v k =
     (case v of
        JUndefined \<Rightarrow> Inl TypeError
      | JNull \<Rightarrow> Inl TypeError
      | JObj props \<Rightarrow> Inr (case map_of props k of Some x \<Rightarrow> x | None \<Rightarrow> JUndefined)
      | JNative n \<Rightarrow>
          Inr (if k = js ''name'' \<and> n \<noteq> js ''__proto__''
               then JStr (if n = js ''constructor'' then js ''Object'' else n)
               else JUndefined)
      | _ \<Rightarrow> Inr JUndefined)"

fun updateField :: "js_string \<Rightarrow> jsval \<Rightarrow> (js_string \<times> jsval) list \<Rightarrow> (js_string \<times> jsval) list" where
  "updateField k x [] = [(k, x)]"
| "updateField k x ((k', y) # props) =
     (if k' = k then (k, x) # props else (k', y) # updateField k x props)"

text \<open>
  \<open>v.k = x\<close> in the strict code of a module: an object gets or changes the property; an
  array gets an extra property, which is no part of its elements (and of its JSON form),
  and so does a member of \<open>Object.prototype\<close>; a primitive value throws a TypeError.
\<close>

definition setProp :: "jsval \<Rightarrow> js_string \<Rightarrow> jsval \<Rightarrow> exn + jsval" where
  "setProp v k x =
     (case v of
        JObj props \<Rightarrow> Inr (JObj (updateField k x props))
      | JArr elements \<Rightarrow> Inr (JArr elements)
      | JNative n \<Rightarrow> Inr (JNative n)
      | _ \<Rightarrow> Inl TypeError)"

text \<open>
  Whether turning a value into a string (in a template literal, or as a property key)
  throws. An object made by \<open>JSON.parse\<close> has no callable property of its own, so an
  own \<open>toString\<close> hides \<open>Object.prototype.toString\<close> and the conversion throws a
  TypeError; an array joins the strings of its elements; a function and
  \<open>Object.prototype\<close> have a string.
\<close>

fun toStringThrows :: "jsval \<Rightarrow> bool" where
  "toStringThrows (JObj props) = (map_of props (js ''toString'') \<noteq> None)"
| "toStringThrows (JArr elements) = list_ex toStringThrows elements"
| "toStringThrows _ = False"

text \<open>
  The logging of \<open>tokens[0]\<close> when the list is not empty: it reads \<open>name\<close>,
  \<open>symbol\<close>, \<open>address\<close> and \<open>description\<close>, and calls
  \<open>description?.substring(0, 100)\<close>, which only a string has.
\<close>

definition sampleLog :: "jsval list \<Rightarrow> exn + unit" where
  "sampleLog tokens =
     (case tokens of
        [] \<Rightarrow> Inr ()
      | first # _ \<Rightarrow>
          (case getProp first (js ''name'') of Inl e \<Rightarrow> Inl e | Inr _ \<Rightarrow>
           case getProp first (js ''symbol'') of Inl e \<Rightarrow> Inl e | Inr _ \<Rightarrow>
           case getProp first (js ''address'') of Inl e \<Rightarrow> Inl e | Inr _ \<Rightarrow>
           case getProp first (js ''description'') of Inl e \<Rightarrow> Inl e | Inr d \<Rightarrow>
             (case d of
                JUndefined \<Rightarrow> Inr ()
              | JNull \<Rightarrow> Inr ()
              | JStr _ \<Rightarrow> Inr ()
              | _ \<Rightarrow> Inl TypeError)))"

text \<open>The filter predicate \<open>!token.description || token.description.trim() === ''\<close>.\<close>

definition needsScraping :: "jsval \<Rightarrow> exn + bool" where
  "needsScraping token =
     (case getProp token (js ''description'') of
        Inl e \<Rightarrow> Inl e
      | Inr d \<Rightarrow>
          if \<not> truthy d then Inr True
          else (case d of JStr t \<Rightarrow> Inr (trim t = []) | _ \<Rightarrow> Inl TypeError))"

text \<open>\<open>tokens.filter(...)\<close>: the first exception of the predicate ends it.\<close>

fun filterNeedingScraping :: "jsval list \<Rightarrow> exn + jsval list" where
  "filterNeedingScraping [] = Inr []"
| "filterNeedingScraping (token # tokens) =
     (case needsScraping token of
        Inl e \<Rightarrow> Inl e
      | Inr needed \<Rightarrow>
          (case filterNeedingScraping tokens of
             Inl e \<Rightarrow> Inl e
           | Inr rest \<Rightarrow> Inr (if needed then token # rest else rest)))"

text \<open>\<open>tokensNeedingScraping.map(token => token.address)\<close>.\<close>

fun addressesOf :: "jsval list \<Rightarrow> exn + jsval list" where
  "addressesOf [] = Inr []"
| "addressesOf (token # tokens) =
     (case getProp token (js ''address'') of
        Inl e \<Rightarrow> Inl e
      | Inr a \<Rightarrow> (case addressesOf tokens of Inl e \<Rightarrow> Inl e | Inr rest \<Rightarrow> Inr (a # rest)))"

text \<open>
  The timer that \<open>Promise.race\<close> sets against the scraping. Which of the two settles
  first is an input of the model: the scraping fulfils with a record, or it rejects, or
  the timer rejects before the scraping has settled. The record is a plain object with
  own properties that are strings; the model has them as the function from an address
  to the text that the record holds of its own under the key of the address, if any.
\<close>

definition scrapingTimeoutMs :: nat where
  "scrapingTimeoutMs = 15000"

datatype race =
    ScrapingFulfils "jsval \<Rightarrow> js_string option"
  | ScrapingRejects
  | TimeoutRejects

text \<open>
  The names of the members of \<open>Object.prototype\<close>, which every plain object inherits.
\<close>

definition objectPrototypeNames :: "js_string list" where
  "objectPrototypeNames =
     map js [''constructor'', ''__defineGetter__'', ''__defineSetter__'', ''hasOwnProperty'',
             ''__lookupGetter__'', ''__lookupSetter__'', ''isPrototypeOf'',
             ''propertyIsEnumerable'', ''toString'', ''valueOf'', ''__proto__'',
             ''toLocaleString'']"

text \<open>
  The inherited member that the key of an address names, if any. The key is the string
  of the address. It is such a name when the address is that string, or an array of one
  element with that key (an array joins the strings of its elements with commas, taking
  \<open>null\<close> and \<open>undefined\<close> as empty); the strings of \<open>undefined\<close>, \<open>null\<close>, the
  booleans, the numbers, the objects and the functions are no such names.
\<close>

fun inheritedName :: "jsval \<Rightarrow> js_string option" where
  "inheritedName (JStr key) = (if key \<in> set objectPrototypeNames then Some key else None)"
| "inheritedName (JArr [element]) = inheritedName element"
| "inheritedName _ = None"

text \<open>
  \<open>scrapedDescriptions[address]\<close>: the record's own text under the key, else the
  member of that name which the record inherits, else \<open>undefined\<close>.
\<close>

definition recordGet :: "(jsval \<Rightarrow> js_string option) \<Rightarrow> jsval \<Rightarrow> jsval" where
  "recordGet scrapedDescriptions a =
     (case scrapedDescriptions a of
        Some d \<Rightarrow> JStr d
      | None \<Rightarrow> (case inheritedName a of Some n \<Rightarrow> JNative n | None \<Rightarrow> JUndefined))"

text \<open>
  The loop that merges the descriptions into the tokens. For each token it looks
  \<open>token.address\<close> up in the record, assigns what it finds to \<open>token.description\<close>
  when that is truthy and not the placeholder, and logs \<open>token.symbol\<close> and
  \<open>token.description.substring(0, 50)\<close>; only a string has \<open>substring\<close>, so the
  logging throws a TypeError after an inherited member has been assigned. A thrown
  exception ends the loop (the \<open>catch\<close> around it swallows it); the tokens changed
  before stay changed.
\<close>

fun mergeLoop :: "(jsval \<Rightarrow> js_string option) \<Rightarrow> jsval list \<Rightarrow> jsval list" where
  "mergeLoop scrapedDescriptions [] = []"
| "mergeLoop scrapedDescriptions (token # tokens) =
     (case getProp token (js ''address'') of
        Inl e \<Rightarrow> token # tokens
      | Inr a \<Rightarrow>
          if toStringThrows a then token # tokens
          else if truthy (recordGet scrapedDescriptions a)
                  \<and> recordGet scrapedDescriptions a \<noteq> JStr noDescription then
            (case setProp token (js ''description'') (recordGet scrapedDescriptions a) of
               Inl e \<Rightarrow> token # tokens
             | Inr token' \<Rightarrow>
                 (case getProp token (js ''symbol'') of
                    Inl e \<Rightarrow> token' # tokens
                  | Inr symbol \<Rightarrow>
                      if toStringThrows symbol then token' # tokens
                      else (case recordGet scrapedDescriptions a of
                              JStr d \<Rightarrow> token' # mergeLoop scrapedDescriptions tokens
                            | _ \<Rightarrow> token' # tokens)))
          else token # mergeLoop scrapedDescriptions tokens)"

text \<open>
  \<open>enhanceTokensWithDescriptions\<close>, for the elements of an array. It returns the tokens
  as the in-place updates leave them, or the exception thrown outside its \<open>try\<close>.
  \<open>scrape addresses\<close> is the outcome of the race for
  \<open>scraper.scrapeMultipleTokens(addresses)\<close>.
\<close>

definition enhanceTokensWithDescriptions ::
    "(jsval list \<Rightarrow> race) \<Rightarrow> jsval list \<Rightarrow> exn + jsval list" where
  "enhanceTokensWithDescriptions scrape tokens =
     (case filterNeedingScraping tokens of
        Inl e \<Rightarrow> Inl e
      | Inr tokensNeedingScraping \<Rightarrow>
          if tokensNeedingScraping = [] then Inr tokens
          else (case addressesOf tokensNeedingScraping of
                  Inl e \<Rightarrow> Inr tokens
                | Inr addresses \<Rightarrow>
                    (case scrape addresses of
                       ScrapingFulfils scrapedDescriptions \<Rightarrow>
                         Inr (mergeLoop scrapedDescriptions tokens)
                     | ScrapingRejects \<Rightarrow> Inr tokens
                     | TimeoutRejects \<Rightarrow> Inr tokens)))"

text \<open>
  The upstream answer: \<open>fetch\<close> rejects, or there is a response with its status, whose
  body cannot be read, is no JSON text, or parses to a value. \<open>res.ok\<close> holds for the
  statuses 200 to 299.
\<close>

datatype response_body = TextRejects | InvalidJson | Json jsval

datatype upstream = FetchRejects | Response nat response_body

definition responseOk :: "nat \<Rightarrow> bool" where
  "responseOk status = (200 \<le> status \<and> status \<le> 299)"

text \<open>
  The \<open>try\<close> block of \<open>getPumpList\<close>. When \<open>data.rank || []\<close> is no array,
  \<open>tokens.filter\<close> is no function and \<open>enhanceTokensWithDescriptions\<close> throws a
  TypeError, unless the logging before it has thrown already.
\<close>

definition getPumpListTry :: "(jsval list \<Rightarrow> race) \<Rightarrow> upstream \<Rightarrow> exn + jsval" where
  "getPumpListTry scrape up =
     (case up of
        FetchRejects \<Rightarrow> Inl FetchFailure
      | Response status body \<Rightarrow>
          if \<not> responseOk status then Inl (ApiError status)
          else (case body of
                  TextRejects \<Rightarrow> Inl BodyFailure
                | InvalidJson \<Rightarrow> Inl SyntaxError
                | Json data \<Rightarrow>
                    (case getProp data (js ''rank'') of
                       Inl e \<Rightarrow> Inl e
                     | Inr rank \<Rightarrow>
                         (case (if truthy rank then rank else JArr []) of
                            JArr tokens \<Rightarrow>
                              (case sampleLog tokens of
                                 Inl e \<Rightarrow> Inl e
                               | Inr _ \<Rightarrow>
                                   (case enhanceTokensWithDescriptions scrape tokens of
                                      Inl e \<Rightarrow> Inl e
                                    | Inr enhanced \<Rightarrow>
                                        Inr (if length enhanced > 0 then JArr enhanced
                                             else JArr [])))
                          | _ \<Rightarrow> Inl TypeError))))"

text \<open>
  \<open>getPumpList\<close>: \<open>Inr\<close> is the value the promise resolves to, \<open>Inl\<close> would be an
  exception that leaves the function.
\<close>

definition getPumpList :: "(jsval list \<Rightarrow> race) \<Rightarrow> upstream \<Rightarrow> exn + jsval" where
  "getPumpList scrape up =
     (case getPumpListTry scrape up of
        Inr tokens \<Rightarrow> Inr tokens
      | Inl e \<Rightarrow> Inr (JArr []))"

text \<open>
  A RankedToken of the upstream list: an object whose \<open>address\<close> is a string, whose
  \<open>description\<close>, when it has one, is a string or \<open>null\<close>, and whose \<open>symbol\<close>,
  when it has one, is a string, a number, a boolean or \<open>null\<close>.
\<close>

definition rankedToken :: "jsval \<Rightarrow> bool" where
  "rankedToken token =
     (case token of
        JObj props \<Rightarrow>
          (case map_of props (js ''address'') of Some (JStr _) \<Rightarrow> True | _ \<Rightarrow> False)
          \<and> (case map_of props (js ''description'') of
                None \<Rightarrow> True
              | Some JNull \<Rightarrow> True
              | Some (JStr _) \<Rightarrow> True
              | Some _ \<Rightarrow> False)
          \<and> (case map_of props (js ''symbol'') of
                Some (JArr _) \<Rightarrow> False
              | Some (JObj _) \<Rightarrow> False
              | _ \<Rightarrow> True)
      | _ \<Rightarrow> False)"

text \<open>The address of a token, and whether its description is absent, empty or blank.\<close>

definition addressOf :: "jsval \<Rightarrow> jsval" where
  "addressOf token = (case getProp token (js ''address'') of Inr a \<Rightarrow> a | Inl _ \<Rightarrow> JUndefined)"

definition lacksDescription :: "jsval \<Rightarrow> bool" where
  "lacksDescription token = (needsScraping token = Inr True)"

text \<open>Whether the scraper's record has a description to merge under an address.\<close>

definition foundDescription :: "(jsval \<Rightarrow> js_string option) \<Rightarrow> jsval \<Rightarrow> bool" where
  "foundDescription scrapedDescriptions a =
     (case scrapedDescriptions a of None \<Rightarrow> False | Some d \<Rightarrow> d \<noteq> [] \<and> d \<noteq> noDescription)"

definition withDescription :: "jsval \<Rightarrow> js_string \<Rightarrow> jsval" where
  "withDescription token d =
     (case token of JObj props \<Rightarrow> JObj (updateField (js ''description'') (JStr d) props)
      | _ \<Rightarrow> token)"

section \<open>Concrete inputs, and the notions the properties are stated in\<close>

text \<open>
  Two pages with a description meta tag, one with a real description and one whose
  \<open>content\<close> is a single space, and what \<open>cheerio.load\<close> makes of them.
\<close>

definition describedHtml :: js_string where
  \<open>describedHtml = js ''<meta name="description" content="A fine token">''\<close>

definition blankMetaHtml :: js_string where
  \<open>blankMetaHtml = js ''<meta name="description" content=" ">''\<close>

definition metaDoc :: "js_string \<Rightarrow> cheerio_doc" where
  \<open>metaDoc content selector =
     (if selector = ''meta[name="description"]''
      then [\<lparr> textOf = [], childrenCount = 0, contentAttr = Some content \<rparr>]
      else [])\<close>

definition exampleLoad :: "js_string \<Rightarrow> cheerio_doc option" where
  "exampleLoad html =
     (if html = describedHtml then Some (metaDoc (js ''A fine token''))
      else if html = blankMetaHtml then Some (metaDoc (js '' ''))
      else Some (\<lambda>selector. []))"

text \<open>A network on which the page of token \<open>Y\<close> loads and every other request fails.\<close>

definition exampleRuntime :: runtime where
  "exampleRuntime =
     \<lparr> toLowerCase = asciiLower,
       cheerioLoad = exampleLoad,
       fetch = (\<lambda>url. if url = tokenUrl (js ''Y'')
                       then FetchResponse True (js ''200'') (js ''OK'') (Inr describedHtml)
                       else FetchRejected (ErrorObject (js ''fetch failed''))) \<rparr>"

text \<open>The tokens and the scraper mock of the specification's end-to-end scenario A.\<close>

definition tokenX :: jsval where
  "tokenX = JObj [(js ''address'', JStr (js ''X'')), (js ''description'', JStr [])]"

definition tokenY :: jsval where
  "tokenY = JObj [(js ''address'', JStr (js ''Y'')),
                  (js ''description'', JStr (js ''Existing text''))]"

text \<open>A token with a description whose address is the name of an inherited member.\<close>

definition tokenConstructor :: jsval where
  "tokenConstructor = JObj [(js ''address'', JStr (js ''constructor'')),
                            (js ''description'', JStr (js ''Existing text''))]"

definition scenarioRecord :: "jsval \<Rightarrow> js_string option" where
  "scenarioRecord a = (if a = JStr (js ''X'') then Some (js ''Found description'') else None)"

definition scenarioScrape :: "jsval list \<Rightarrow> race" where
  "scenarioScrape addresses = ScrapingFulfils scenarioRecord"

text \<open>A scraper that never settles before the timer.\<close>

definition slowScrape :: "jsval list \<Rightarrow> race" where
  "slowScrape addresses = TimeoutRejects"

text \<open>
  A whitespace-normalised text: its only white space are single SPACEs between other
  code units (\<open>afterSpace\<close>: the code unit before was white space, or the text starts
  here).
\<close>

fun singleSpaced :: "bool \<Rightarrow> js_string \<Rightarrow> bool" where
  "singleSpaced afterSpace [] = True"
| "singleSpaced afterSpace (c # cs) =
     (if isWhiteSpace c then c = 32 \<and> \<not> afterSpace \<and> singleSpaced True cs
      else singleSpaced False cs)"

definition whitespaceNormalized :: "js_string \<Rightarrow> bool" where
  "whitespaceNormalized t = (singleSpaced True t \<and> (t = [] \<or> \<not> isWhiteSpace (last t)))"

text \<open>
  The words of a text: its maximal runs of code units that are no white space.
\<close>

fun wordsFrom :: "js_string \<Rightarrow> js_string \<Rightarrow> js_string list" where
  "wordsFrom w [] = (if w = [] then [] else [w])"
| "wordsFrom w (c # cs) =
     (if isWhiteSpace c then (if w = [] then wordsFrom [] cs else w # wordsFrom [] cs)
      else wordsFrom (w @ [c]) cs)"

definition wordsOf :: "js_string \<Rightarrow> js_string list" where
  "wordsOf text = wordsFrom [] text"

section \<open>Whitespace normalisation\<close>

lemma dropWhile_keeps: "x \<in> set xs \<Longrightarrow> \<not> P x \<Longrightarrow> x \<in> set (dropWhile P xs)"
  by (induction xs) auto

lemma trim_keeps: "c \<in> set s \<Longrightarrow> \<not> isWhiteSpace c \<Longrightarrow> c \<in> set (trim s)"
  by (simp add: trim_def dropWhile_keeps)

lemma collapseFrom_keeps:
  "c \<in> set s \<Longrightarrow> \<not> isWhiteSpace c \<Longrightarrow> c \<in> set (collapseFrom inRun s)"
  by (induction s arbitrary: inRun) auto

lemma normalizeText_keeps:
  "c \<in> set s \<Longrightarrow> \<not> isWhiteSpace c \<Longrightarrow> c \<in> set (normalizeText s)"
  by (simp add: normalizeText_def collapseWhiteSpace_def trim_keeps collapseFrom_keeps)

lemma trim_nonempty_has_text:
  assumes "trim s \<noteq> []"
  shows "\<exists>c \<in> set (trim s). \<not> isWhiteSpace c"
proof -
  let ?inner = "dropWhile isWhiteSpace (rev (dropWhile isWhiteSpace s))"
  from assms have ne: "?inner \<noteq> []" by (simp add: trim_def)
  then have "\<not> isWhiteSpace (hd ?inner)" by (rule hd_dropWhile)
  moreover have "hd ?inner \<in> set (trim s)" using ne by (simp add: trim_def)
  ultimately show ?thesis by blast
qed

lemma normalizeText_trim_nonempty: "trim s \<noteq> [] \<Longrightarrow> normalizeText (trim s) \<noteq> []"
  using trim_nonempty_has_text[of s] normalizeText_keeps[of _ "trim s"] by fastforce

lemma space_is_white: "isWhiteSpace 32"
  by (simp add: isWhiteSpace_def)

lemma singleSpaced_collapseFrom: "singleSpaced inRun (collapseFrom inRun s)"
  by (induction s arbitrary: inRun) (auto simp: space_is_white)

lemma singleSpaced_weaken: "singleSpaced True s \<Longrightarrow> singleSpaced b s"
  by (cases s) (auto split: if_splits)

lemma singleSpaced_no_leading: "singleSpaced True s \<Longrightarrow> dropWhile isWhiteSpace s = s"
  by (cases s) (auto split: if_splits)

lemma singleSpaced_dropWhile:
  "singleSpaced b s \<Longrightarrow> singleSpaced True (dropWhile isWhiteSpace s)"
  by (cases s) (auto simp: singleSpaced_no_leading split: if_splits)

lemma singleSpaced_prefix: "singleSpaced b (xs @ ys) \<Longrightarrow> singleSpaced b xs"
  by (induction xs arbitrary: b) (auto split: if_splits)

lemma drop_trailing_prefix:
  "xs = rev (dropWhile P (rev xs)) @ rev (takeWhile P (rev xs))"
proof -
  have "rev (dropWhile P (rev xs)) @ rev (takeWhile P (rev xs))
          = rev (takeWhile P (rev xs) @ dropWhile P (rev xs))"
    by (simp only: rev_append)
  also have "\<dots> = rev (rev xs)" by (simp only: takeWhile_dropWhile_id)
  finally show ?thesis by simp
qed

lemma whitespaceNormalized_normalizeText: "whitespaceNormalized (normalizeText s)"
proof -
  let ?c = "collapseFrom False s"
  let ?y = "dropWhile isWhiteSpace ?c"
  let ?z = "rev (dropWhile isWhiteSpace (rev ?y))"
  have y: "singleSpaced True ?y"
    using singleSpaced_collapseFrom[of False s] by (rule singleSpaced_dropWhile)
  have "singleSpaced True (?z @ rev (takeWhile isWhiteSpace (rev ?y)))"
    using y drop_trailing_prefix[of ?y isWhiteSpace] by simp
  then have z: "singleSpaced True ?z" by (rule singleSpaced_prefix)
  have "?z = [] \<or> \<not> isWhiteSpace (last ?z)"
  proof (cases "dropWhile isWhiteSpace (rev ?y) = []")
    case True
    then show ?thesis by simp
  next
    case False
    then have "\<not> isWhiteSpace (hd (dropWhile isWhiteSpace (rev ?y)))" by (rule hd_dropWhile)
    then show ?thesis using False by (simp add: last_rev)
  qed
  with z show ?thesis
    by (simp add: whitespaceNormalized_def normalizeText_def trim_def collapseWhiteSpace_def)
qed

lemma splitSpace_nonempty: "splitSpace t \<noteq> []"
  by (induction t) (auto split: list.splits)

lemma wordsFrom_splitSpace:
  "singleSpaced (w = []) t \<Longrightarrow> t = [] \<or> \<not> isWhiteSpace (last t) \<Longrightarrow> w \<noteq> [] \<or> t \<noteq> [] \<Longrightarrow>
     wordsFrom w t = (case splitSpace t of p # ps \<Rightarrow> (w @ p) # ps | [] \<Rightarrow> [])"
proof (induction t arbitrary: w)
  case Nil
  then show ?case by simp
next
  case (Cons c cs)
  show ?case
  proof (cases "isWhiteSpace c")
    case True
    with Cons.prems have c: "c = 32" and w: "w \<noteq> []" and cs: "singleSpaced True cs"
      by auto
    from True Cons.prems(2) have ne: "cs \<noteq> []" by auto
    with Cons.prems(2) have last: "cs = [] \<or> \<not> isWhiteSpace (last cs)" by simp
    have "wordsFrom [] cs = (case splitSpace cs of p # ps \<Rightarrow> ([] @ p) # ps | [] \<Rightarrow> [])"
      using Cons.IH[of "[]"] cs last ne by simp
    also have "\<dots> = splitSpace cs"
      using splitSpace_nonempty[of cs] by (cases "splitSpace cs") simp_all
    finally show ?thesis using True c w by simp
  next
    case False
    then have c: "c \<noteq> 32" using space_is_white by auto
    have cs: "singleSpaced (w @ [c] = []) cs" using False Cons.prems(1) by simp
    have last: "cs = [] \<or> \<not> isWhiteSpace (last cs)" using Cons.prems(2) by (auto split: if_splits)
    have "wordsFrom (w @ [c]) cs
            = (case splitSpace cs of p # ps \<Rightarrow> ((w @ [c]) @ p) # ps | [] \<Rightarrow> [])"
      using Cons.IH[of "w @ [c]"] cs last by simp
    then show ?thesis using False c splitSpace_nonempty[of cs]
      by (cases "splitSpace cs") simp_all
  qed
qed

lemma wordsOf_normalized:
  assumes "whitespaceNormalized t" and "t \<noteq> []"
  shows "wordsOf t = splitSpace t"
proof -
  have "wordsFrom [] t = (case splitSpace t of p # ps \<Rightarrow> ([] @ p) # ps | [] \<Rightarrow> [])"
    using assms wordsFrom_splitSpace[of "[]" t] by (simp add: whitespaceNormalized_def)
  then show ?thesis using splitSpace_nonempty[of t]
    by (cases "splitSpace t") (simp_all add: wordsOf_def)
qed

section \<open>The validity filter\<close>

lemma isValidDescription_empty: "\<not> isValidDescription lc [] isMetaTag"
  by (simp add: isValidDescription_def)

lemma isValidTextBlock_two_spaces:
  "isValidTextBlock lc text \<Longrightarrow> length (splitSpace text) > 2"
  by (simp add: isValidTextBlock_def Let_def split: if_splits)

subsection \<open>Texts of the form number, unit, "ago"\<close>

lemma stepLit_self:
  "stepLit True l (prev, l @ rest) = [(if l = [] then prev else Some (last l), rest)]"
  by (induction l arbitrary: prev) (auto simp: chrEq_def)

lemma iterate_start: "p \<in> set (iterate f n p)"
  by (cases n) auto

lemma iterate_run:
  "\<forall>c \<in> set run. P c \<Longrightarrow> length run \<le> n \<Longrightarrow>
     (if run = [] then prev else Some (last run), rest)
       \<in> set (iterate (stepChr P) n (prev, run @ rest))"
proof (induction run arbitrary: prev n)
  case Nil
  then show ?case by (simp add: iterate_start)
next
  case (Cons c run)
  then obtain m where n: "n = Suc m" by (cases n) auto
  have "(if run = [] then Some c else Some (last run), rest)
          \<in> set (iterate (stepChr P) m (Some c, run @ rest))"
    using Cons.IH[of m "Some c"] Cons.prems n by simp
  then show ?case using Cons.prems n by auto
qed

lemma ends_Plus_run:
  assumes "run \<noteq> []" and "\<forall>c \<in> set run. P c"
      and "\<And>p. ends r ic p = stepChr P p"
  shows "(Some (last run), rest) \<in> set (ends (Plus r) ic (prev, run @ rest))"
proof -
  from assms(1) obtain c run' where run: "run = c # run'" by (cases run) auto
  have "(if run' = [] then Some c else Some (last run'), rest)
          \<in> set (iterate (stepChr P) (length (run' @ rest)) (Some c, run' @ rest))"
    using iterate_run[of run' P "length (run' @ rest)" "Some c" rest] assms(2) run by simp
  moreover have "ends r ic = stepChr P" using assms(3) by (simp add: fun_eq_iff)
  ultimately show ?thesis using assms(2) run by auto
qed

lemma ends_SeqI:
  "q \<in> set (ends a ic p) \<Longrightarrow> r \<in> set (ends b ic q) \<Longrightarrow> r \<in> set (ends (Seq a b) ic p)"
  by auto

lemma ends_altsI:
  "r \<in> set rs \<Longrightarrow> q \<in> set (ends r ic p) \<Longrightarrow> q \<in> set (ends (alts rs) ic p)"
  by (induction rs rule: alts.induct) auto

lemma regexTest_at_start:
  "q \<in> set (ends r ic (None, s)) \<Longrightarrow> regexTest r ic s"
  by (cases s) (auto simp: regexTest_def)

lemma timeUnit_match:
  assumes "unit \<in> set timeUnits"
  shows "(Some (last unit), rest) \<in> set (ends timeUnit True (prev, unit @ rest))"
proof -
  have ne: "unit \<noteq> []" using assms by (auto simp: timeUnits_def js_def)
  have "Lit unit \<in> set (map Lit timeUnits)" using assms by simp
  moreover have "(Some (last unit), rest) \<in> set (ends (Lit unit) True (prev, unit @ rest))"
    using ne by (simp add: stepLit_self)
  ultimately show ?thesis
    unfolding timeUnit_def by (rule ends_altsI)
qed

lemma relative_time_text_matches:
  assumes digits: "number \<noteq> []" "\<forall>d \<in> set number. isDigit d"
      and unit: "unit \<in> set timeUnits"
      and plural: "plural = [] \<or> plural = js ''s''"
  shows "matchesTimePattern (number @ js '' '' @ unit @ plural @ js '' ago'')"
proof -
  let ?t5 = "js ''ago''"
  let ?t4 = "js '' '' @ ?t5"
  let ?t3 = "plural @ ?t4"
  let ?t2 = "unit @ ?t3"
  let ?t1 = "js '' '' @ ?t2"
  let ?text = "number @ ?t1"
  let ?p = "seqs [WordBoundary, Plus Digit, Plus Space, timeUnit, Opt (Lit (js ''s'')),
            Plus Space, Lit (js ''ago''), WordBoundary]"
  have shape: "number @ js '' '' @ unit @ plural @ js '' ago'' = ?text" by (simp add: js_def)
  have space: "js '' '' \<noteq> []" "\<forall>c \<in> set (js '' ''). isWhiteSpace c" "last (js '' '') = 32"
    by (simp_all add: js_def isWhiteSpace_def)
  have unit_ne: "unit \<noteq> []" using unit by (auto simp: timeUnits_def js_def)
  have s0: "(None, ?text) \<in> set (ends WordBoundary True (None, ?text))"
    using digits by (cases number) (auto simp: wordBefore_def wordAfter_def isWordChar_def)
  have s1: "(Some (last number), ?t1) \<in> set (ends (Plus Digit) True (None, ?text))"
    using ends_Plus_run[OF digits, of Digit True ?t1 None] by simp
  have s2: "(Some 32, ?t2) \<in> set (ends (Plus Space) True (Some (last number), ?t1))"
    using ends_Plus_run[OF space(1,2), of Space True ?t2 "Some (last number)"] space(3) by simp
  have s3: "(Some (last unit), ?t3) \<in> set (ends timeUnit True (Some 32, ?t2))"
    using timeUnit_match[OF unit] .
  have s4: "\<exists>prev. (prev, ?t4) \<in> set (ends (Opt (Lit (js ''s''))) True (Some (last unit), ?t3))"
  proof -
    from plural show ?thesis
    proof
      assume "plural = []"
      then show ?thesis by auto
    next
      assume "plural = js ''s''"
      then show ?thesis using stepLit_self[of "js ''s''" "Some (last unit)" ?t4] by auto
    qed
  qed
  then obtain prev where s4': "(prev, ?t4) \<in> set (ends (Opt (Lit (js ''s''))) True (Some (last unit), ?t3))"
    by blast
  have s5: "(Some 32, ?t5) \<in> set (ends (Plus Space) True (prev, ?t4))"
    using ends_Plus_run[OF space(1,2), of Space True ?t5 prev] space(3) by simp
  have s6: "(Some 111, []) \<in> set (ends (Lit (js ''ago'')) True (Some 32, ?t5))"
    using stepLit_self[of "js ''ago''" "Some 32" "[]"] by (simp add: js_def)
  have s7: "(Some 111, []) \<in> set (ends WordBoundary True (Some 111, []))"
    by (simp add: wordBefore_def wordAfter_def isWordChar_def)
  have "(Some 111, []) \<in> set (ends ?p True (None, ?text))"
    unfolding seqs.simps
    by (intro ends_SeqI[OF s0] ends_SeqI[OF s1] ends_SeqI[OF s2] ends_SeqI[OF s3]
          ends_SeqI[OF s4'] ends_SeqI[OF s5] ends_SeqI[OF s6] s7)
  then have "regexTest ?p True ?text" by (rule regexTest_at_start)
  then show ?thesis unfolding shape by (simp add: matchesTimePattern_def timePatterns_def)
qed

text \<open>
  C7. Every text that one of the relative-time patterns matches is rejected by
  \<open>isValidDescription\<close>, with meta-tag leniency enabled and disabled alike. The
  patterns match, among others, every text made of a number, a space, a time unit with or
  without plural "s", and " ago" (such as "5 minutes ago", "2 hours ago"), and the texts
  "just now" and "yesterday"; all of these are rejected.
\<close>

theorem time_patterns_rejected:
  "(matchesTimePattern t \<longrightarrow> \<not> isValidDescription lc t isMetaTag)
   \<and> (number \<noteq> [] \<and> (\<forall>d \<in> set number. isDigit d) \<and> unit \<in> set timeUnits
        \<and> (plural = [] \<or> plural = js ''s'')
      \<longrightarrow> \<not> isValidDescription lc (number @ js '' '' @ unit @ plural @ js '' ago'') isMetaTag)
   \<and> \<not> isValidDescription lc (js ''just now'') isMetaTag
   \<and> \<not> isValidDescription lc (js ''yesterday'') isMetaTag"
proof -
  have rejected: "\<not> isValidDescription lc s isMetaTag" if "matchesTimePattern s" for s
    using that by (simp add: isValidDescription_def)
  have just_now: "matchesTimePattern (js ''just now'')" by code_simp
  have yesterday: "matchesTimePattern (js ''yesterday'')" by code_simp
  show ?thesis
    using rejected[of t] rejected[OF just_now] rejected[OF yesterday]
      rejected[OF relative_time_text_matches[of number unit plural]]
    by blast
qed

theorem time_patterns_rejected_witness:
  "matchesTimePattern (js ''5 minutes ago'')
   \<and> \<not> isValidDescription asciiLower (js ''5 minutes ago'') True
   \<and> \<not> isValidDescription asciiLower (js ''5 minutes ago'') False
   \<and> matchesTimePattern (js ''2 hours ago'')
   \<and> \<not> isValidDescription asciiLower (js ''2 hours ago'') True
   \<and> \<not> isValidDescription asciiLower (js ''2 hours ago'') False
   \<and> \<not> isValidDescription asciiLower (js ''just now'') True
   \<and> \<not> isValidDescription asciiLower (js ''just now'') False
   \<and> \<not> isValidDescription asciiLower (js ''yesterday'') True
   \<and> \<not> isValidDescription asciiLower (js ''yesterday'') False"
proof -
  have m1: "matchesTimePattern (js ''5 minutes ago'')" by code_simp
  have m2: "matchesTimePattern (js ''2 hours ago'')" by code_simp
  have five: "js ''5'' \<noteq> [] \<and> (\<forall>d \<in> set (js ''5''). isDigit d)
      \<and> js ''minute'' \<in> set timeUnits \<and> (js ''s'' = [] \<or> js ''s'' = js ''s'')"
    by (simp add: js_def isDigit_def timeUnits_def)
  have shape: "js ''5'' @ js '' '' @ js ''minute'' @ js ''s'' @ js '' ago'' = js ''5 minutes ago''"
    by (simp add: js_def)
  note at_five = time_patterns_rejected[of "js ''5 minutes ago''" asciiLower _
      "js ''5''" "js ''minute''" "js ''s''"]
  note at_two = time_patterns_rejected[of "js ''2 hours ago''" asciiLower]
  have r1: "\<not> isValidDescription asciiLower (js ''5 minutes ago'') True"
      "\<not> isValidDescription asciiLower (js ''5 minutes ago'') False"
    using at_five[of True, THEN conjunct2, THEN conjunct1] 
      at_five[of False, THEN conjunct2, THEN conjunct1] five
    unfolding shape by blast+
  have r2: "\<not> isValidDescription asciiLower (js ''2 hours ago'') True"
      "\<not> isValidDescription asciiLower (js ''2 hours ago'') False"
    using at_two[of True, THEN conjunct1] at_two[of False, THEN conjunct1] m2 by blast+
  have r3: "\<not> isValidDescription asciiLower (js ''just now'') True"
      "\<not> isValidDescription asciiLower (js ''just now'') False"
      "\<not> isValidDescription asciiLower (js ''yesterday'') True"
      "\<not> isValidDescription asciiLower (js ''yesterday'') False"
    using at_two[of True] at_two[of False] by blast+
  from m1 m2 r1 r2 r3 show ?thesis by blast
qed

text \<open>
  C9. In both leniency modes \<open>isValidDescription\<close> rejects a text whose lower-cased
  form is one of "default description", "time since creation", "creation time", and a
  text of more than 2500 code units. With leniency disabled it also rejects a text whose
  lower-cased form contains one of the UI phrases (among them "connect wallet",
  "loading", "try again", "page not found"). With leniency enabled the UI phrases play no
  part: the text is accepted exactly when it is not empty, has at most 2500 code units,
  matches no time pattern and is none of the three exclusions.
\<close>

theorem validity_filter_rejections:
  "(lc t \<in> {js ''default description'', js ''time since creation'', js ''creation time''}
      \<longrightarrow> \<not> isValidDescription lc t isMetaTag)
   \<and> (length t > 2500 \<longrightarrow> \<not> isValidDescription lc t isMetaTag)
   \<and> (\<forall>phrase \<in> set uiExclusions.
         strIncludes (lc t) phrase \<longrightarrow> \<not> isValidDescription lc t False)
   \<and> {js ''connect wallet'', js ''loading'', js ''try again'', js ''page not found''}
         \<subseteq> set uiExclusions
   \<and> (isValidDescription lc t True \<longleftrightarrow>
         t \<noteq> [] \<and> length t \<le> 2500 \<and> \<not> matchesTimePattern t
         \<and> lc t \<notin> {js ''default description'', js ''time since creation'',
                      js ''creation time''})"
proof (intro conjI)
  show "lc t \<in> {js ''default description'', js ''time since creation'', js ''creation time''}
      \<longrightarrow> \<not> isValidDescription lc t isMetaTag"
    by (auto simp: isValidDescription_def commonExclusions_def Let_def)
  show "length t > 2500 \<longrightarrow> \<not> isValidDescription lc t isMetaTag"
    by (simp add: isValidDescription_def config_def)
  show "\<forall>phrase \<in> set uiExclusions.
         strIncludes (lc t) phrase \<longrightarrow> \<not> isValidDescription lc t False"
    by (auto simp: isValidDescription_def Let_def list_ex_iff)
  show "{js ''connect wallet'', js ''loading'', js ''try again'', js ''page not found''}
         \<subseteq> set uiExclusions"
    by (simp add: uiExclusions_def)
  show "isValidDescription lc t True \<longleftrightarrow>
         t \<noteq> [] \<and> length t \<le> 2500 \<and> \<not> matchesTimePattern t
         \<and> lc t \<notin> {js ''default description'', js ''time since creation'',
                      js ''creation time''}"
    by (auto simp: isValidDescription_def config_def commonExclusions_def Let_def)
qed

theorem validity_filter_rejections_witness:
  "asciiLower (js ''Default Description'') = js ''default description''
   \<and> \<not> isValidDescription asciiLower (js ''Default Description'') True
   \<and> \<not> isValidDescription asciiLower (js ''Default Description'') False
   \<and> 2500 < length (replicate 2501 (97::nat))
   \<and> \<not> isValidDescription asciiLower (replicate 2501 97) True
   \<and> \<not> isValidDescription asciiLower (replicate 2501 97) False
   \<and> strIncludes (asciiLower (js ''Loading the page'')) (js ''loading'')
   \<and> \<not> isValidDescription asciiLower (js ''Loading the page'') False
   \<and> isValidDescription asciiLower (js ''Loading the page'') True"
proof -
  have l1: "asciiLower (js ''Default Description'') = js ''default description''"
    by code_simp
  have l2: "2500 < length (replicate 2501 (97::nat))" by simp
  have l3: "strIncludes (asciiLower (js ''Loading the page'')) (js ''loading'')"
    by code_simp
  have l4: "js ''loading'' \<in> set uiExclusions" by (simp add: uiExclusions_def)
  have l5: "js ''Loading the page'' \<noteq> []
      \<and> length (js ''Loading the page'') \<le> 2500
      \<and> \<not> matchesTimePattern (js ''Loading the page'')
      \<and> asciiLower (js ''Loading the page'') \<notin>
          {js ''default description'', js ''time since creation'', js ''creation time''}"
    by code_simp
  note dd = validity_filter_rejections[of asciiLower "js ''Default Description''"]
  note long = validity_filter_rejections[of asciiLower "replicate 2501 97"]
  note load = validity_filter_rejections[of asciiLower "js ''Loading the page''"]
  have r1: "\<not> isValidDescription asciiLower (js ''Default Description'') True"
      "\<not> isValidDescription asciiLower (js ''Default Description'') False"
    using dd[of True] dd[of False] l1 by simp_all
  have r2: "\<not> isValidDescription asciiLower (replicate 2501 97) True"
      "\<not> isValidDescription asciiLower (replicate 2501 97) False"
    using long[of True] long[of False] l2 by blast+
  have r3: "\<not> isValidDescription asciiLower (js ''Loading the page'') False"
    using load[of False] l3 l4 by blast
  have r4: "isValidDescription asciiLower (js ''Loading the page'') True"
    using load[of True] l5 by blast
  show ?thesis using l1 l2 l3 r1 r2 r3 r4 by blast
qed

lemma text_block_three_words_when_normalized:
  assumes "whitespaceNormalized t" and "isValidTextBlock lc t"
  shows "length (wordsOf t) \<ge> 3"
proof -
  have "t \<noteq> []" using assms(2) isValidDescription_empty
    by (auto simp: isValidTextBlock_def split: if_splits)
  then have "wordsOf t = splitSpace t" using assms(1) by (rule wordsOf_normalized[rotated])
  moreover have "length (splitSpace t) > 2"
    using assms(2) by (simp add: isValidTextBlock_def Let_def split: if_splits)
  ultimately show ?thesis by simp
qed

text \<open>
  C8. The claim is that every text of fewer than three words is rejected by
  \<open>isValidTextBlock\<close>. The code counts the pieces of \<open>text.split(' ')\<close> instead of
  words: "Hello  world", two words with two spaces between them, splits into three
  pieces and is accepted. On a whitespace-normalised text the pieces are the words
  (\<open>text_block_three_words_when_normalized\<close>), but the texts are normalised only
  after the test.
\<close>

theorem text_block_two_words_accepted:
  "isValidTextBlock asciiLower (js ''Hello  world'')
   \<and> wordsOf (js ''Hello  world'') = [js ''Hello'', js ''world'']"
  by code_simp

section \<open>The extractor follows the priority order\<close>

lemma find_append_first:
  "find P (xs @ ys) = (case find P xs of Some x \<Rightarrow> Some x | None \<Rightarrow> find P ys)"
  by (induction xs) auto

lemma metaLoop_find:
  "metaLoop lc doc sels =
     map_option normalizeText
       (find (\<lambda>c. isValidDescription lc c True)
          (List.map_filter (\<lambda>s. attrContent (doc s)) sels))"
  by (induction sels)
     (auto simp: List.map_filter_simps isValidDescription_def split: option.splits)

lemma elementLoop_find:
  "elementLoop lc es =
     map_option normalizeText
       (find (\<lambda>c. isValidDescription lc c False) (map (\<lambda>e. trim (textOf e)) es))"
  by (induction es) (auto simp: Let_def)

lemma structuralLoop_find:
  "structuralLoop lc doc sels =
     map_option normalizeText
       (find (\<lambda>c. isValidDescription lc c False)
          (concat (map (\<lambda>s. map (\<lambda>e. trim (textOf e)) (doc s)) sels)))"
  by (induction sels) (auto simp: elementLoop_find find_append_first split: option.splits)

lemma textBlockLoop_find:
  "textBlockLoop lc es =
     map_option normalizeText
       (find (isValidTextBlock lc)
          (map (\<lambda>e. trim (textOf e)) (filter (\<lambda>e. childrenCount e = 0) es)))"
  by (induction es) (auto simp: Let_def)

text \<open>
  C1. For every raw HTML input the extractor tries the meta tags in their fixed order with
  meta-tag leniency enabled, then the structural selectors in their fixed order with
  leniency disabled, then the leaf text blocks, and returns (normalised) the first
  candidate that passes its filter, or nothing when no strategy yields one: the loops of
  \<open>extractDescription\<close> compute exactly \<open>extractSpec\<close>.
\<close>

theorem extract_priority_order:
  "extractDescription lc load html = extractSpec lc load html"
  by (auto simp: extractDescription_def extractSpec_def metaLoop_find structuralLoop_find
        textBlockLoop_find findTextBlocks_def metaCandidates_def structuralCandidates_def
        leafCandidates_def
      split: option.splits)

subsection \<open>Where an empty result can come from\<close>

lemma elementLoop_nonempty: "elementLoop lc es = Some r \<Longrightarrow> r \<noteq> []"
proof (induction es)
  case Nil
  then show ?case by simp
next
  case (Cons e es)
  show ?case
  proof (cases "isValidDescription lc (trim (textOf e)) False")
    case True
    then have "trim (textOf e) \<noteq> []" using isValidDescription_empty by metis
    then show ?thesis using Cons.prems True normalizeText_trim_nonempty by (auto simp: Let_def)
  next
    case False
    then show ?thesis using Cons by (simp add: Let_def)
  qed
qed

lemma structuralLoop_nonempty: "structuralLoop lc doc sels = Some r \<Longrightarrow> r \<noteq> []"
  by (induction sels) (auto simp: elementLoop_nonempty split: option.splits)

lemma textBlockLoop_nonempty: "textBlockLoop lc es = Some r \<Longrightarrow> r \<noteq> []"
proof (induction es)
  case Nil
  then show ?case by simp
next
  case (Cons e es)
  show ?case
  proof (cases "childrenCount e = 0 \<and> isValidTextBlock lc (trim (textOf e))")
    case True
    then have "isValidDescription lc (trim (textOf e)) False"
      by (auto simp: isValidTextBlock_def split: if_splits)
    then have "trim (textOf e) \<noteq> []" using isValidDescription_empty by metis
    then show ?thesis using Cons.prems True normalizeText_trim_nonempty by (auto simp: Let_def)
  next
    case False
    then show ?thesis using Cons by (auto simp: Let_def)
  qed
qed

lemma extract_empty_only_from_meta:
  assumes "extractDescription lc load html = Some []"
  shows "\<exists>doc. load html = Some doc \<and> metaLoop lc doc metaSelectors = Some []"
  using assms structuralLoop_nonempty textBlockLoop_nonempty
  by (fastforce simp: extractDescription_def findTextBlocks_def split: option.splits)

lemma extract_result_normalized:
  assumes "extractDescription lc load html = Some r"
  shows "whitespaceNormalized r"
proof -
  have "\<exists>raw. r = normalizeText raw"
    using assms
    by (auto simp: extractDescription_def findTextBlocks_def metaLoop_find structuralLoop_find
          textBlockLoop_find
        split: option.splits)
  then show ?thesis using whitespaceNormalized_normalizeText by blast
qed

text \<open>
  C10. The claim is that the extractor never returns the empty string.
  \<open>isValidDescription\<close> does reject the empty string, but the meta-tag path tests the
  raw \<open>content\<close> and normalises it afterwards: a description meta tag whose content is
  one space passes the filter and is returned as the empty string. The structural and
  the leaf paths trim before they test and never return the empty string
  (\<open>extract_empty_only_from_meta\<close>); every result is whitespace-normalised
  (\<open>extract_result_normalized\<close>).
\<close>

theorem extract_blank_meta_is_empty:
  "extractDescription asciiLower exampleLoad blankMetaHtml = Some []"
  by code_simp

section \<open>Batches settle every identifier\<close>

lemma fold_recordSet:
  "fold (\<lambda>(a, d) r. recordSet r a d) (map (\<lambda>a. (a, f a)) as) m =
     (\<lambda>b. if b \<in> set as \<and> b \<noteq> js ''__proto__'' then Some (f b) else m b)"
  by (induction as arbitrary: m) (auto simp: fun_eq_iff recordSet_def)

lemma fold_upd_keys:
  "fold (\<lambda>a c. c(a \<mapsto> g a)) as m = (\<lambda>b. if b \<in> set as then Some (g b) else m b)"
  by (induction as arbitrary: m) (auto simp: fun_eq_iff)

lemma scrape_result_eq:
  "fst (scrapeTokenDescription rt s b sd) =
     (case cache s b of Some cached \<Rightarrow> orNoDescription (description cached)
      | None \<Rightarrow> snd (scrapeUncached rt b))"
  by (simp add: scrapeTokenDescription_def split: option.splits prod.splits)

lemma processBatch_results:
  "fst (processBatch rt s as) b =
     (if b \<in> set as \<and> b \<noteq> js ''__proto__''
      then Some (fst (scrapeTokenDescription rt s b True)) else None)"
  by (simp add: processBatch_def Let_def fold_recordSet scrape_result_eq)

lemma processBatch_cache:
  "cache (snd (processBatch rt s as)) b =
     (if b \<in> set as \<and> cache s b = None then Some (fst (scrapeUncached rt b)) else cache s b)"
  by (simp add: processBatch_def Let_def fold_upd_keys)


lemma cached_uncached_agree:
  "orNoDescription (description (fst (scrapeUncached rt b))) = snd (scrapeUncached rt b)"
  by (auto simp: scrapeUncached_def orNoDescription_def orUndefined_def Let_def
      split: sum.splits option.splits)

lemma processBatch_own_stable:
  "fst (scrapeTokenDescription rt (snd (processBatch rt s as)) b sd) =
   fst (scrapeTokenDescription rt s b sd')"
  by (simp add: scrape_result_eq processBatch_cache cached_uncached_agree split: option.splits)

lemma batchLoop_results:
  "fst (batchLoop rt s res rest) b =
     (if b \<in> set rest \<and> b \<noteq> js ''__proto__''
      then Some (fst (scrapeTokenDescription rt s b True)) else res b)"
proof (induction rt s res rest rule: batchLoop.induct)
  case (1 rt s results rest)
  show ?case
  proof (cases "rest = []")
    case True
    then show ?thesis by (simp add: batchLoop.simps)
  next
    case False
    let ?batch = "take (batchSize config) rest"
    obtain br s' where pb: "processBatch rt s ?batch = (br, s')"
      by (cases "processBatch rt s ?batch")
    have split_set: "set rest = set ?batch \<union> set (drop (batchSize config) rest)"
      by (metis append_take_drop_id set_append)
    have own: "\<And>c. fst (scrapeTokenDescription rt s' c True)
                    = fst (scrapeTokenDescription rt s c True)"
      using processBatch_own_stable[of rt s ?batch] pb by simp
    have br: "\<And>c. br c = (if c \<in> set ?batch \<and> c \<noteq> js ''__proto__''
                            then Some (fst (scrapeTokenDescription rt s c True)) else None)"
      using processBatch_results[of rt s ?batch] pb by simp
    have "fst (batchLoop rt s results rest) b =
          fst (batchLoop rt s' (objectAssign results br) (drop (batchSize config) rest)) b"
      using False pb by (subst batchLoop.simps) simp
    also have "\<dots> = (if b \<in> set (drop (batchSize config) rest) \<and> b \<noteq> js ''__proto__''
                       then Some (fst (scrapeTokenDescription rt s' b True))
                       else objectAssign results br b)"
      using 1[OF False refl pb[symmetric]] by simp
    also have "\<dots> = (if b \<in> set rest \<and> b \<noteq> js ''__proto__''
                       then Some (fst (scrapeTokenDescription rt s b True)) else results b)"
      using split_set by (auto simp: own br map_add_def objectAssign_def)
    finally show ?thesis .
  qed
qed

text \<open>
  C4 as stated fails for one identifier: the results are collected in a plain object,
  and the assignment \<open>results['__proto__'] = desc\<close> stores nothing. In a batch of
  \<open>X\<close>, \<open>__proto__\<close> and \<open>Y\<close> the returned mapping has the results of \<open>X\<close> and of
  \<open>Y\<close> and no entry for \<open>__proto__\<close>.
\<close>

theorem batch_misses_proto_key:
  "fst (scrapeMultipleTokens exampleRuntime newScraper [js ''X'', js ''__proto__'', js ''Y''])
     (js ''__proto__'') = None
   \<and> fst (scrapeMultipleTokens exampleRuntime newScraper [js ''X'', js ''__proto__'', js ''Y''])
       (js ''X'') = Some noDescription
   \<and> fst (scrapeMultipleTokens exampleRuntime newScraper [js ''X'', js ''__proto__'', js ''Y''])
       (js ''Y'') = Some (js ''A fine token'')"
  by code_simp

text \<open>
  C4, amended. Let the fetch of identifier \<open>a\<close> throw. For every list of identifiers,
  \<open>scrapeMultipleTokens\<close> returns a mapping whose keys are exactly the identifiers of
  the list other than \<open>__proto__\<close>; every such identifier has its own result, the one a
  scrape of it alone would give; and \<open>a\<close>, when it is in the list and not
  \<open>__proto__\<close>, has the placeholder "No description available". The return value is a
  mapping in every case: no failure of a fetch fails the batch.
\<close>

theorem batch_settlement:
  assumes "fetchTokenPage rt (tokenUrl a) = Inl e" and "cache s a = None"
  shows "dom (fst (scrapeMultipleTokens rt s as)) = set as - {js ''__proto__''}
       \<and> (\<forall>b \<in> set as. b \<noteq> js ''__proto__''
             \<longrightarrow> fst (scrapeMultipleTokens rt s as) b
                   = Some (fst (scrapeTokenDescription rt s b True)))
       \<and> (a \<in> set as \<and> a \<noteq> js ''__proto__''
             \<longrightarrow> fst (scrapeMultipleTokens rt s as) a = Some noDescription)"
proof -
  have "fst (scrapeTokenDescription rt s a True) = noDescription"
    using assms by (simp add: scrape_result_eq scrapeUncached_def)
  then show ?thesis
    by (auto simp: scrapeMultipleTokens_def batchLoop_results dom_def split: if_splits)
qed

theorem batch_settlement_witness:
  "fetchTokenPage exampleRuntime (tokenUrl (js ''X'')) = Inl (ErrorObject (js ''fetch failed''))
   \<and> cache newScraper (js ''X'') = None
   \<and> dom (fst (scrapeMultipleTokens exampleRuntime newScraper
                 [js ''X'', js ''__proto__'', js ''Y'']))
        = {js ''X'', js ''Y''}
   \<and> fst (scrapeMultipleTokens exampleRuntime newScraper [js ''X'', js ''__proto__'', js ''Y''])
       (js ''Y'') = Some (js ''A fine token'')
   \<and> fst (scrapeMultipleTokens exampleRuntime newScraper [js ''X'', js ''__proto__'', js ''Y''])
       (js ''X'') = Some noDescription"
proof -
  let ?as = "[js ''X'', js ''__proto__'', js ''Y'']"
  have h1: "fetchTokenPage exampleRuntime (tokenUrl (js ''X''))
              = Inl (ErrorObject (js ''fetch failed''))"
    by code_simp
  have h2: "cache newScraper (js ''X'') = None" by (simp add: newScraper_def)
  have own: "fst (scrapeTokenDescription exampleRuntime newScraper (js ''Y'') True)
              = js ''A fine token''"
    by code_simp
  have names: "js ''X'' \<noteq> js ''__proto__''" "js ''Y'' \<noteq> js ''__proto__''"
    by (simp_all add: js_def)
  note settled = batch_settlement[OF h1 h2, of ?as]
  have "set ?as - {js ''__proto__''} = {js ''X'', js ''Y''}"
    using names by auto
  then have keys: "dom (fst (scrapeMultipleTokens exampleRuntime newScraper ?as))
                = {js ''X'', js ''Y''}"
    using settled[THEN conjunct1] by simp
  have other: "fst (scrapeMultipleTokens exampleRuntime newScraper ?as) (js ''Y'')
                 = Some (js ''A fine token'')"
    using settled[THEN conjunct2, THEN conjunct1] own names by simp
  have failing: "fst (scrapeMultipleTokens exampleRuntime newScraper ?as) (js ''X'')
                   = Some noDescription"
    using settled[THEN conjunct2, THEN conjunct2] names by simp
  from h1 h2 keys other failing show ?thesis by blast
qed

section \<open>The cache\<close>

lemma tokenUrl_inject [simp]: "tokenUrl a = tokenUrl b \<longleftrightarrow> a = b"
  by (simp add: tokenUrl_def)









section \<open>The list service\<close>

lemma rankedToken_object:
  assumes "rankedToken t"
  obtains props where "t = JObj props"
  using assms by (cases t) (auto simp: rankedToken_def)

lemma rankedToken_description:
  assumes "rankedToken t"
  shows "\<exists>d. getProp t (js ''description'') = Inr d
             \<and> (d = JUndefined \<or> d = JNull \<or> (\<exists>text. d = JStr text))"
proof -
  from assms obtain props where t: "t = JObj props" by (rule rankedToken_object)
  have ok: "case map_of props (js ''description'') of
              None \<Rightarrow> True | Some JNull \<Rightarrow> True | Some (JStr _) \<Rightarrow> True | Some _ \<Rightarrow> False"
    using assms by (simp add: rankedToken_def t)
  show ?thesis
  proof (cases "map_of props (js ''description'')")
    case None
    then show ?thesis by (simp add: t getProp_def)
  next
    case (Some d)
    with ok show ?thesis by (cases d) (simp_all add: t getProp_def)
  qed
qed

lemma rankedToken_needs:
  assumes "rankedToken t"
  shows "needsScraping t = Inr (lacksDescription t)"
proof -
  from rankedToken_description[OF assms] obtain d where
    d: "getProp t (js ''description'') = Inr d"
       "d = JUndefined \<or> d = JNull \<or> (\<exists>text. d = JStr text)"
    by blast
  from d(2) show ?thesis
    by (auto simp: needsScraping_def lacksDescription_def d(1))
qed

lemma filterNeeding_ranked:
  "\<forall>t \<in> set tokens. rankedToken t \<Longrightarrow>
     filterNeedingScraping tokens = Inr (filter lacksDescription tokens)"
  by (induction tokens) (auto simp: rankedToken_needs)

lemma rankedToken_address_string:
  assumes "rankedToken t"
  shows "\<exists>a. getProp t (js ''address'') = Inr (JStr a) \<and> addressOf t = JStr a"
proof -
  from assms obtain props where t: "t = JObj props" by (rule rankedToken_object)
  have ok: "case map_of props (js ''address'') of Some (JStr _) \<Rightarrow> True | _ \<Rightarrow> False"
    using assms by (simp add: rankedToken_def t)
  show ?thesis
  proof (cases "map_of props (js ''address'')")
    case None
    with ok show ?thesis by simp
  next
    case (Some a)
    with ok show ?thesis by (cases a) (simp_all add: t getProp_def addressOf_def)
  qed
qed

lemma rankedToken_address:
  "rankedToken t \<Longrightarrow> getProp t (js ''address'') = Inr (addressOf t)"
  using rankedToken_address_string by fastforce

lemma rankedToken_address_key:
  "rankedToken t \<Longrightarrow> \<not> toStringThrows (addressOf t)"
  using rankedToken_address_string by fastforce

lemma rankedToken_symbol:
  assumes "rankedToken t"
  shows "\<exists>symbol. getProp t (js ''symbol'') = Inr symbol \<and> \<not> toStringThrows symbol"
proof -
  from assms obtain props where t: "t = JObj props" by (rule rankedToken_object)
  have ok: "case map_of props (js ''symbol'') of
              Some (JArr _) \<Rightarrow> False | Some (JObj _) \<Rightarrow> False | _ \<Rightarrow> True"
    using assms by (simp add: rankedToken_def t)
  show ?thesis
  proof (cases "map_of props (js ''symbol'')")
    case None
    then show ?thesis by (simp add: t getProp_def)
  next
    case (Some symbol)
    with ok show ?thesis by (cases symbol) (simp_all add: t getProp_def)
  qed
qed

lemma addressesOf_ranked:
  "\<forall>t \<in> set tokens. rankedToken t \<Longrightarrow> addressesOf tokens = Inr (map addressOf tokens)"
  by (induction tokens) (auto simp: rankedToken_address)

lemma rankedToken_set:
  assumes "rankedToken t"
  shows "setProp t (js ''description'') (JStr d) = Inr (withDescription t d)"
proof -
  from assms obtain props where "t = JObj props" by (rule rankedToken_object)
  then show ?thesis by (simp add: setProp_def withDescription_def)
qed

lemma recordGet_plain:
  "inheritedName a = None \<Longrightarrow>
     recordGet scraped a = (case scraped a of Some d \<Rightarrow> JStr d | None \<Rightarrow> JUndefined)"
  by (simp add: recordGet_def split: option.splits)

lemma mergeLoop_ranked:
  "\<forall>t \<in> set tokens. rankedToken t \<and> inheritedName (addressOf t) = None \<Longrightarrow>
     mergeLoop scraped tokens =
       map (\<lambda>t. if foundDescription scraped (addressOf t)
                then withDescription t (the (scraped (addressOf t))) else t) tokens"
proof (induction tokens)
  case Nil
  then show ?case by simp
next
  case (Cons t tokens)
  then have t: "rankedToken t" and plain: "inheritedName (addressOf t) = None"
    and rest: "\<forall>t \<in> set tokens. rankedToken t \<and> inheritedName (addressOf t) = None"
    by simp_all
  obtain symbol where
    symbol: "getProp t (js ''symbol'') = Inr symbol" "\<not> toStringThrows symbol"
    using rankedToken_symbol[OF t] by blast
  show ?case
  proof (cases "scraped (addressOf t)")
    case None
    then show ?thesis
      using Cons.IH[OF rest]
      by (simp add: rankedToken_address[OF t] rankedToken_address_key[OF t]
          recordGet_plain[OF plain] foundDescription_def)
  next
    case (Some d)
    then show ?thesis
      using Cons.IH[OF rest] symbol
      by (simp add: rankedToken_address[OF t] rankedToken_address_key[OF t]
          recordGet_plain[OF plain] rankedToken_set[OF t] foundDescription_def)
  qed
qed

lemma length_mergeLoop: "length (mergeLoop scraped tokens) = length tokens"
proof (induction tokens)
  case Nil
  then show ?case by simp
next
  case (Cons t tokens)
  then show ?case
    by (cases "recordGet scraped (case getProp t (js ''address'') of Inr a \<Rightarrow> a)")
       (simp_all split: sum.splits)
qed

lemma enhance_length:
  "enhanceTokensWithDescriptions scrape tokens = Inr enhanced \<Longrightarrow>
     length enhanced = length tokens"
  by (auto simp: enhanceTokensWithDescriptions_def length_mergeLoop
      split: sum.splits if_splits race.splits)

lemma enhance_throws:
  "(\<exists>e. enhanceTokensWithDescriptions scrape tokens = Inl e)
     \<longleftrightarrow> (\<exists>e. filterNeedingScraping tokens = Inl e)"
  by (auto simp: enhanceTokensWithDescriptions_def split: sum.splits if_splits race.splits)

lemma sampleLog_ranked:
  assumes "\<forall>t \<in> set tokens. rankedToken t"
  shows "sampleLog tokens = Inr ()"
proof (cases tokens)
  case Nil
  then show ?thesis by (simp add: sampleLog_def)
next
  case (Cons first rest)
  with assms have r: "rankedToken first" by simp
  then obtain props where first: "first = JObj props" by (rule rankedToken_object)
  from rankedToken_description[OF r] obtain d where
    d: "getProp first (js ''description'') = Inr d"
       "d = JUndefined \<or> d = JNull \<or> (\<exists>text. d = JStr text)"
    by blast
  have reads: "\<And>k. \<exists>x. getProp first k = Inr x" by (simp add: first getProp_def)
  obtain n where n: "getProp first (js ''name'') = Inr n" using reads by blast
  obtain sy where sy: "getProp first (js ''symbol'') = Inr sy" using reads by blast
  obtain a where a: "getProp first (js ''address'') = Inr a" using reads by blast
  from d(2) show ?thesis
    by (auto simp: sampleLog_def Cons n sy a d(1))
qed

lemma getPumpListTry_array:
  "getPumpListTry scrape up = Inr v \<Longrightarrow> \<exists>tokens. v = JArr tokens"
  unfolding getPumpListTry_def
  by (auto split: upstream.splits if_splits response_body.splits sum.splits jsval.splits)

lemma getPumpList_array: "\<exists>tokens. getPumpList scrape up = Inr (JArr tokens)"
proof (cases "getPumpListTry scrape up")
  case (Inl e)
  then show ?thesis by (simp add: getPumpList_def)
next
  case (Inr v)
  with getPumpListTry_array[OF Inr] show ?thesis by (auto simp: getPumpList_def)
qed

lemma getPumpListTry_tokens:
  assumes "responseOk status" and "getProp data (js ''rank'') = Inr (JArr tokens)"
  shows "getPumpListTry scrape (Response status (Json data)) =
           (case sampleLog tokens of
              Inl e \<Rightarrow> Inl e
            | Inr u \<Rightarrow> (case enhanceTokensWithDescriptions scrape tokens of
                          Inl e \<Rightarrow> Inl e
                        | Inr enhanced \<Rightarrow> Inr (JArr enhanced)))"
  using assms by (simp add: getPumpListTry_def split: sum.splits)

lemma getPumpList_reading_throws:
  assumes rank: "getProp data (js ''rank'') = Inr (JArr tokens)"
      and throws: "sampleLog tokens \<noteq> Inr () \<or> (\<exists>e. filterNeedingScraping tokens = Inl e)"
  shows "getPumpList scrape (Response status (Json data)) = Inr (JArr [])"
proof (cases "responseOk status")
  case False
  then show ?thesis by (simp add: getPumpList_def getPumpListTry_def)
next
  case True
  have "\<exists>e. getPumpListTry scrape (Response status (Json data)) = Inl e"
  proof (cases "sampleLog tokens")
    case (Inl e)
    then show ?thesis by (simp add: getPumpListTry_tokens[OF True rank])
  next
    case (Inr u)
    with throws have "\<exists>e. filterNeedingScraping tokens = Inl e" by simp
    then obtain e where "enhanceTokensWithDescriptions scrape tokens = Inl e"
      using enhance_throws by blast
    with Inr show ?thesis by (simp add: getPumpListTry_tokens[OF True rank])
  qed
  then show ?thesis by (auto simp: getPumpList_def)
qed

lemma filter_throws_member:
  "t \<in> set tokens \<Longrightarrow> needsScraping t = Inl e \<Longrightarrow> \<exists>e'. filterNeedingScraping tokens = Inl e'"
  by (induction tokens) (auto split: sum.splits)

lemma needsScraping_null: "needsScraping JNull = Inl TypeError"
  by (simp add: needsScraping_def getProp_def)

lemma needsScraping_not_string:
  assumes "getProp t (js ''description'') = Inr d" and "truthy d" and "\<forall>text. d \<noteq> JStr text"
  shows "needsScraping t = Inl TypeError"
  using assms by (cases d) (simp_all add: needsScraping_def)

text \<open>
  C2 as stated fails for a body that is JSON but not of the expected shape: the service
  does not check the shape. A body \<open>{"rank":[true]}\<close> resolves to \<open>[true]\<close>, not to
  the empty list.
\<close>

theorem getPumpList_shape_unchecked:
  "getPumpList scenarioScrape (Response 200 (Json (JObj [(js ''rank'', JArr [JBool True])])))
     = Inr (JArr [JBool True])"
  by code_simp

text \<open>
  C2, amended. \<open>getPumpList\<close> never throws: it always resolves to a list. It resolves
  to the empty list when the upstream fetch rejects, when the status is not one of 200 to
  299, when the body cannot be read or is no JSON text, when the parsed body has no
  array under \<open>rank\<close>, and when the logging of the first token or the filter on the
  descriptions throws on the array, as they do when an element is \<open>null\<close> or has a
  description that is truthy and no string. In every other case the array under
  \<open>rank\<close> is returned, not checked against the shape of a RankedToken, with the
  length it has.
\<close>

theorem getPumpList_never_throws:
  "(\<exists>tokens. getPumpList scrape up = Inr (JArr tokens))
   \<and> (up = FetchRejects \<longrightarrow> getPumpList scrape up = Inr (JArr []))
   \<and> (\<forall>status body. up = Response status body \<and> \<not> responseOk status
         \<longrightarrow> getPumpList scrape up = Inr (JArr []))
   \<and> (\<forall>status. up = Response status TextRejects \<or> up = Response status InvalidJson
         \<longrightarrow> getPumpList scrape up = Inr (JArr []))
   \<and> (\<forall>status data. up = Response status (Json data)
           \<and> (\<forall>tokens. getProp data (js ''rank'') \<noteq> Inr (JArr tokens))
         \<longrightarrow> getPumpList scrape up = Inr (JArr []))
   \<and> (\<forall>status data tokens. up = Response status (Json data)
           \<and> getProp data (js ''rank'') = Inr (JArr tokens)
           \<and> (sampleLog tokens \<noteq> Inr () \<or> (\<exists>e. filterNeedingScraping tokens = Inl e))
         \<longrightarrow> getPumpList scrape up = Inr (JArr []))
   \<and> (\<forall>status data tokens. up = Response status (Json data)
           \<and> getProp data (js ''rank'') = Inr (JArr tokens)
           \<and> (\<exists>t \<in> set tokens. t = JNull
                 \<or> (\<exists>d. getProp t (js ''description'') = Inr d \<and> truthy d
                         \<and> (\<forall>text. d \<noteq> JStr text)))
         \<longrightarrow> getPumpList scrape up = Inr (JArr []))
   \<and> (\<forall>status data tokens. up = Response status (Json data) \<and> responseOk status
           \<and> getProp data (js ''rank'') = Inr (JArr tokens)
           \<and> sampleLog tokens = Inr ()
           \<and> (\<exists>needing. filterNeedingScraping tokens = Inr needing)
         \<longrightarrow> (\<exists>enhanced. getPumpList scrape up = Inr (JArr enhanced)
                          \<and> length enhanced = length tokens))"
proof (intro conjI allI impI)
  show "\<exists>tokens. getPumpList scrape up = Inr (JArr tokens)" by (rule getPumpList_array)
next
  assume "up = FetchRejects"
  then show "getPumpList scrape up = Inr (JArr [])"
    by (simp add: getPumpList_def getPumpListTry_def)
next
  fix status body assume "up = Response status body \<and> \<not> responseOk status"
  then show "getPumpList scrape up = Inr (JArr [])"
    by (simp add: getPumpList_def getPumpListTry_def)
next
  fix status assume "up = Response status TextRejects \<or> up = Response status InvalidJson"
  then show "getPumpList scrape up = Inr (JArr [])"
    by (auto simp: getPumpList_def getPumpListTry_def)
next
  fix status data
  assume a: "up = Response status (Json data)
           \<and> (\<forall>tokens. getProp data (js ''rank'') \<noteq> Inr (JArr tokens))"
  show "getPumpList scrape up = Inr (JArr [])"
  proof (cases "getProp data (js ''rank'')")
    case (Inl e)
    with a show ?thesis by (simp add: getPumpList_def getPumpListTry_def)
  next
    case (Inr rank)
    with a have "\<forall>tokens. rank \<noteq> JArr tokens" by simp
    then show ?thesis using a Inr
      by (cases rank) (auto simp: getPumpList_def getPumpListTry_def sampleLog_def
          enhanceTokensWithDescriptions_def)
  qed
next
  fix status data tokens
  assume a: "up = Response status (Json data)
           \<and> getProp data (js ''rank'') = Inr (JArr tokens)
           \<and> (sampleLog tokens \<noteq> Inr () \<or> (\<exists>e. filterNeedingScraping tokens = Inl e))"
  then show "getPumpList scrape up = Inr (JArr [])"
    using getPumpList_reading_throws[of data tokens scrape status] by blast
next
  fix status data tokens
  assume a: "up = Response status (Json data)
           \<and> getProp data (js ''rank'') = Inr (JArr tokens)
           \<and> (\<exists>t \<in> set tokens. t = JNull
                 \<or> (\<exists>d. getProp t (js ''description'') = Inr d \<and> truthy d
                         \<and> (\<forall>text. d \<noteq> JStr text)))"
  then obtain t where t: "t \<in> set tokens"
      "t = JNull \<or> (\<exists>d. getProp t (js ''description'') = Inr d \<and> truthy d
                         \<and> (\<forall>text. d \<noteq> JStr text))"
    by blast
  from t(2) have "needsScraping t = Inl TypeError"
    using needsScraping_null needsScraping_not_string by blast
  then have "\<exists>e. filterNeedingScraping tokens = Inl e"
    using filter_throws_member[OF t(1)] by blast
  with a show "getPumpList scrape up = Inr (JArr [])"
    using getPumpList_reading_throws[of data tokens scrape status] by blast
next
  fix status data tokens
  assume a: "up = Response status (Json data) \<and> responseOk status
           \<and> getProp data (js ''rank'') = Inr (JArr tokens)
           \<and> sampleLog tokens = Inr ()
           \<and> (\<exists>needing. filterNeedingScraping tokens = Inr needing)"
  then have ok: "responseOk status" and rank: "getProp data (js ''rank'') = Inr (JArr tokens)"
    and logged: "sampleLog tokens = Inr ()" by simp_all
  from a have "\<not> (\<exists>e. filterNeedingScraping tokens = Inl e)" by auto
  then have "\<not> (\<exists>e. enhanceTokensWithDescriptions scrape tokens = Inl e)"
    using enhance_throws by blast
  then obtain enhanced where e: "enhanceTokensWithDescriptions scrape tokens = Inr enhanced"
    by (cases "enhanceTokensWithDescriptions scrape tokens") auto
  have "getPumpList scrape up = Inr (JArr enhanced)"
    using a by (simp add: getPumpList_def getPumpListTry_tokens[OF ok rank] logged e)
  with enhance_length[OF e]
  show "\<exists>enhanced. getPumpList scrape up = Inr (JArr enhanced)
                   \<and> length enhanced = length tokens"
    by blast
qed

theorem getPumpList_never_throws_witness:
  "getPumpList scenarioScrape FetchRejects = Inr (JArr [])
   \<and> \<not> responseOk 503
   \<and> getPumpList scenarioScrape (Response 503 (Json (JObj [(js ''rank'', JArr [tokenY])])))
       = Inr (JArr [])
   \<and> getPumpList scenarioScrape (Response 200 InvalidJson) = Inr (JArr [])
   \<and> getPumpList scenarioScrape (Response 200 TextRejects) = Inr (JArr [])
   \<and> getPumpList scenarioScrape (Response 200 (Json JNull)) = Inr (JArr [])
   \<and> getPumpList scenarioScrape (Response 200 (Json (JObj [(js ''rank'', JArr [JNull])])))
       = Inr (JArr [])
   \<and> getPumpList scenarioScrape
       (Response 200 (Json (JObj [(js ''rank'',
          JArr [JObj [(js ''address'', JStr (js ''X'')),
                      (js ''description'', JNum 0x4014000000000000)]])])))
       = Inr (JArr [])
   \<and> responseOk 200
   \<and> (\<exists>enhanced. getPumpList scenarioScrape
                     (Response 200 (Json (JObj [(js ''rank'', JArr [tokenX, tokenY])])))
                   = Inr (JArr enhanced)
                 \<and> length enhanced = 2)"
proof -
  let ?five = "JObj [(js ''address'', JStr (js ''X'')),
                     (js ''description'', JNum 0x4014000000000000)]"
  have basic: "getPumpList scenarioScrape FetchRejects = Inr (JArr [])
     \<and> \<not> responseOk 503
     \<and> getPumpList scenarioScrape (Response 503 (Json (JObj [(js ''rank'', JArr [tokenY])])))
         = Inr (JArr [])
     \<and> getPumpList scenarioScrape (Response 200 InvalidJson) = Inr (JArr [])
     \<and> getPumpList scenarioScrape (Response 200 TextRejects) = Inr (JArr [])
     \<and> getPumpList scenarioScrape (Response 200 (Json JNull)) = Inr (JArr [])"
    using getPumpList_never_throws[of scenarioScrape FetchRejects]
      getPumpList_never_throws[of scenarioScrape
        "Response 503 (Json (JObj [(js ''rank'', JArr [tokenY])]))"]
      getPumpList_never_throws[of scenarioScrape "Response 200 InvalidJson"]
      getPumpList_never_throws[of scenarioScrape "Response 200 TextRejects"]
      getPumpList_never_throws[of scenarioScrape "Response 200 (Json JNull)"]
    by (simp add: responseOk_def getProp_def)
  have rank: "getProp (JObj [(js ''rank'', JArr ts)]) (js ''rank'') = Inr (JArr ts)" for ts
    by (simp add: getProp_def)
  have "sampleLog [JNull] \<noteq> Inr ()" by (simp add: sampleLog_def getProp_def)
  then have null: "getPumpList scenarioScrape
                     (Response 200 (Json (JObj [(js ''rank'', JArr [JNull])]))) = Inr (JArr [])"
    using getPumpList_never_throws[of scenarioScrape
            "Response 200 (Json (JObj [(js ''rank'', JArr [JNull])]))",
          THEN conjunct2, THEN conjunct2, THEN conjunct2, THEN conjunct2, THEN conjunct2,
          THEN conjunct1, rule_format, of 200 "JObj [(js ''rank'', JArr [JNull])]" "[JNull]"]
      rank
    by blast
  have d5: "getProp ?five (js ''description'') = Inr (JNum 0x4014000000000000)"
    by (simp add: getProp_def js_def)
  have t5: "truthy (JNum 0x4014000000000000)" by (simp add: numberTruthy_def)
  have "\<exists>t \<in> set [?five]. t = JNull
          \<or> (\<exists>d. getProp t (js ''description'') = Inr d \<and> truthy d \<and> (\<forall>text. d \<noteq> JStr text))"
    using d5 t5 by simp
  then have five: "getPumpList scenarioScrape
                     (Response 200 (Json (JObj [(js ''rank'', JArr [?five])]))) = Inr (JArr [])"
    using getPumpList_never_throws[of scenarioScrape
            "Response 200 (Json (JObj [(js ''rank'', JArr [?five])]))",
          THEN conjunct2, THEN conjunct2, THEN conjunct2, THEN conjunct2, THEN conjunct2,
          THEN conjunct2, THEN conjunct1, rule_format,
          of 200 "JObj [(js ''rank'', JArr [?five])]" "[?five]"]
      rank
    by blast
  have ok: "responseOk 200" by (simp add: responseOk_def)
  have logged: "sampleLog [tokenX, tokenY] = Inr ()" by code_simp
  have filtered: "filterNeedingScraping [tokenX, tokenY] = Inr [tokenX]" by code_simp
  have "\<exists>enhanced. getPumpList scenarioScrape
                     (Response 200 (Json (JObj [(js ''rank'', JArr [tokenX, tokenY])])))
                   = Inr (JArr enhanced)
                 \<and> length enhanced = length [tokenX, tokenY]"
    using getPumpList_never_throws[of scenarioScrape
            "Response 200 (Json (JObj [(js ''rank'', JArr [tokenX, tokenY])]))",
          THEN conjunct2, THEN conjunct2, THEN conjunct2, THEN conjunct2, THEN conjunct2,
          THEN conjunct2, THEN conjunct2, rule_format,
          of 200 "JObj [(js ''rank'', JArr [tokenX, tokenY])]" "[tokenX, tokenY]"]
      rank ok logged filtered
    by blast
  then have served: "\<exists>enhanced. getPumpList scenarioScrape
                     (Response 200 (Json (JObj [(js ''rank'', JArr [tokenX, tokenY])])))
                   = Inr (JArr enhanced)
                 \<and> length enhanced = 2"
    by (simp add: numeral_2_eq_2)
  from basic null five ok served show ?thesis by blast
qed

text \<open>
  C5. When the timer of 15000 ms rejects before the scraping has settled, the enrichment
  leaves the list of RankedTokens as it is, and \<open>getPumpList\<close> resolves to that list:
  losing the race is no failure of the request.
\<close>

theorem timeout_returns_unenriched:
  assumes "responseOk status"
      and "getProp data (js ''rank'') = Inr (JArr tokens)"
      and ranked: "\<forall>t \<in> set tokens. rankedToken t"
      and "scrape (map addressOf (filter lacksDescription tokens)) = TimeoutRejects"
  shows "enhanceTokensWithDescriptions scrape tokens = Inr tokens
       \<and> getPumpList scrape (Response status (Json data)) = Inr (JArr tokens)
       \<and> scrapingTimeoutMs = 15000"
proof -
  have needing_ranked: "\<forall>t \<in> set (filter lacksDescription tokens). rankedToken t"
    using ranked by simp
  have e: "enhanceTokensWithDescriptions scrape tokens = Inr tokens"
    using assms
    by (simp add: enhanceTokensWithDescriptions_def filterNeeding_ranked
        addressesOf_ranked[OF needing_ranked])
  have "getPumpList scrape (Response status (Json data)) = Inr (JArr tokens)"
    using assms(1,2) e sampleLog_ranked[OF ranked]
    by (cases tokens) (simp_all add: getPumpList_def getPumpListTry_def)
  with e show ?thesis by (simp add: scrapingTimeoutMs_def)
qed

theorem timeout_returns_unenriched_witness:
  "responseOk 200
   \<and> getPumpList slowScrape (Response 200 (Json (JObj [(js ''rank'', JArr [tokenX, tokenY])])))
       = Inr (JArr [tokenX, tokenY])"
proof -
  have ok: "responseOk 200" by (simp add: responseOk_def)
  have rank: "getProp (JObj [(js ''rank'', JArr [tokenX, tokenY])]) (js ''rank'')
                = Inr (JArr [tokenX, tokenY])"
    by (simp add: getProp_def)
  have "rankedToken tokenX" "rankedToken tokenY" by code_simp+
  then have ranked: "\<forall>t \<in> set [tokenX, tokenY]. rankedToken t" by simp
  have slow: "slowScrape (map addressOf (filter lacksDescription [tokenX, tokenY]))
                = TimeoutRejects"
    by (simp add: slowScrape_def)
  from timeout_returns_unenriched[where scrape = slowScrape, OF ok rank ranked slow] ok
  show ?thesis by simp
qed

text \<open>
  C6 as stated fails in three ways. A description of one space is neither absent nor
  empty, yet the token is enriched (the filter trims before it compares). A token with
  a description loses it when another token of the same address lacks one (the merge
  goes by address over all tokens). And a token with a description whose address is
  \<open>constructor\<close> gets the function \<open>Object\<close> for a description: the record is a
  plain object, in which the look-up of that address finds the inherited member.
\<close>

theorem enrichment_not_only_empty:
  "enhanceTokensWithDescriptions scenarioScrape
     [JObj [(js ''address'', JStr (js ''X'')), (js ''description'', JStr (js '' ''))]]
     = Inr [JObj [(js ''address'', JStr (js ''X'')),
                  (js ''description'', JStr (js ''Found description''))]]
   \<and> enhanceTokensWithDescriptions scenarioScrape
       [tokenX,
        JObj [(js ''address'', JStr (js ''X'')), (js ''description'', JStr (js ''Existing text''))]]
     = Inr [JObj [(js ''address'', JStr (js ''X'')),
                  (js ''description'', JStr (js ''Found description''))],
            JObj [(js ''address'', JStr (js ''X'')),
                  (js ''description'', JStr (js ''Found description''))]]
   \<and> enhanceTokensWithDescriptions scenarioScrape [tokenX, tokenConstructor]
     = Inr [JObj [(js ''address'', JStr (js ''X'')),
                  (js ''description'', JStr (js ''Found description''))],
            JObj [(js ''address'', JStr (js ''constructor'')),
                  (js ''description'', JNative (js ''constructor''))]]"
  by code_simp

text \<open>
  C6, amended. Take a list of RankedTokens in which no address is the name of a member
  that every object inherits from \<open>Object.prototype\<close> (\<open>constructor\<close>,
  \<open>toString\<close>, \<open>__proto__\<close> and the like) and no token with a description shares
  its address with a token that lacks one, and a scraper whose record has entries only
  for the addresses it was asked for. Then the enrichment sets the description of exactly
  the tokens whose description was absent, empty or white space only and for whose
  address the record holds a text that is not empty and not the placeholder; every other
  token, so every token that had a description, stays as it was.
\<close>

theorem enrichment_changes_exactly:
  assumes ranked: "\<forall>t \<in> set tokens. rankedToken t"
      and plain: "\<forall>t \<in> set tokens. inheritedName (addressOf t) = None"
      and fulfils: "scrape (map addressOf (filter lacksDescription tokens))
                      = ScrapingFulfils scraped"
      and requested: "\<forall>a. scraped a \<noteq> None
                        \<longrightarrow> a \<in> addressOf ` set (filter lacksDescription tokens)"
      and apart: "\<forall>t \<in> set tokens. \<forall>u \<in> set tokens.
                    lacksDescription u \<and> \<not> lacksDescription t \<longrightarrow> addressOf t \<noteq> addressOf u"
  shows "enhanceTokensWithDescriptions scrape tokens =
           Inr (map (\<lambda>t. if lacksDescription t \<and> foundDescription scraped (addressOf t)
                         then withDescription t (the (scraped (addressOf t)))
                         else t) tokens)"
proof (cases "filter lacksDescription tokens = []")
  case True
  then have "\<forall>t \<in> set tokens. \<not> lacksDescription t"
    by (simp add: filter_empty_conv)
  then have "map (\<lambda>t. if lacksDescription t \<and> foundDescription scraped (addressOf t)
                         then withDescription t (the (scraped (addressOf t)))
                         else t) tokens = tokens"
    by (simp add: map_idI)
  with True ranked show ?thesis
    by (simp add: enhanceTokensWithDescriptions_def filterNeeding_ranked)
next
  case False
  have found_lacks: "lacksDescription t"
    if "t \<in> set tokens" "foundDescription scraped (addressOf t)" for t
  proof (rule ccontr)
    assume no: "\<not> lacksDescription t"
    from that(2) have "scraped (addressOf t) \<noteq> None"
      by (auto simp: foundDescription_def split: option.splits)
    with requested obtain u where
      "u \<in> set tokens" "lacksDescription u" "addressOf t = addressOf u"
      by auto
    with apart that(1) no show False by blast
  qed
  have needing_ranked: "\<forall>t \<in> set (filter lacksDescription tokens). rankedToken t"
    using ranked by simp
  have both: "\<forall>t \<in> set tokens. rankedToken t \<and> inheritedName (addressOf t) = None"
    using ranked plain by simp
  have "enhanceTokensWithDescriptions scrape tokens = Inr (mergeLoop scraped tokens)"
    using False ranked fulfils
    by (simp add: enhanceTokensWithDescriptions_def filterNeeding_ranked
        addressesOf_ranked[OF needing_ranked])
  also have "mergeLoop scraped tokens =
       map (\<lambda>t. if lacksDescription t \<and> foundDescription scraped (addressOf t)
                         then withDescription t (the (scraped (addressOf t)))
                         else t) tokens"
    unfolding mergeLoop_ranked[OF both] using found_lacks by (intro map_cong) auto
  finally show ?thesis .
qed

theorem enrichment_changes_exactly_witness:
  "rankedToken tokenX \<and> rankedToken tokenY
   \<and> inheritedName (addressOf tokenX) = None \<and> inheritedName (addressOf tokenY) = None
   \<and> lacksDescription tokenX \<and> \<not> lacksDescription tokenY
   \<and> enhanceTokensWithDescriptions scenarioScrape [tokenX, tokenY]
       = Inr [JObj [(js ''address'', JStr (js ''X'')),
                    (js ''description'', JStr (js ''Found description''))],
              tokenY]"
proof -
  have r: "rankedToken tokenX" "rankedToken tokenY" by code_simp+
  have p: "inheritedName (addressOf tokenX) = None" "inheritedName (addressOf tokenY) = None"
    by code_simp+
  have l: "lacksDescription tokenX" "\<not> lacksDescription tokenY" by code_simp+
  have a: "addressOf tokenX = JStr (js ''X'')" "addressOf tokenY = JStr (js ''Y'')"
    by code_simp+
  have yx: "JStr (js ''Y'') \<noteq> JStr (js ''X'')" by (simp add: js_def)
  have f: "foundDescription scenarioRecord (JStr (js ''X''))" by code_simp
  have w: "withDescription tokenX (the (scenarioRecord (JStr (js ''X''))))
            = JObj [(js ''address'', JStr (js ''X'')),
                    (js ''description'', JStr (js ''Found description''))]"
    by code_simp
  have ranked: "\<forall>t \<in> set [tokenX, tokenY]. rankedToken t" using r by simp
  have plain: "\<forall>t \<in> set [tokenX, tokenY]. inheritedName (addressOf t) = None"
    using p by simp
  have fulfils: "scenarioScrape (map addressOf (filter lacksDescription [tokenX, tokenY]))
                   = ScrapingFulfils scenarioRecord"
    by (simp add: scenarioScrape_def)
  have requested: "\<forall>a. scenarioRecord a \<noteq> None \<longrightarrow>
                     a \<in> addressOf ` set (filter lacksDescription [tokenX, tokenY])"
    using l a by (simp add: scenarioRecord_def)
  have apart: "\<forall>t \<in> set [tokenX, tokenY]. \<forall>u \<in> set [tokenX, tokenY].
                 lacksDescription u \<and> \<not> lacksDescription t \<longrightarrow> addressOf t \<noteq> addressOf u"
    using l a yx by simp
  from enrichment_changes_exactly[where tokens = "[tokenX, tokenY]" and scrape = scenarioScrape
         and scraped = scenarioRecord, OF ranked plain fulfils requested apart] r p l a f w yx
  show ?thesis by (simp add: foundDescription_def scenarioRecord_def)
qed

end
